theory Spec2Isabelle
  imports Complex_Main
begin

section \<open>One-Euro filter (hand-tracker.js, class OneEuroFilter)\<close>

text \<open>
  JavaScript numbers are modelled by the reals: the development follows the formulas of the
  source in exact arithmetic. A field that holds \<open>null\<close> in the source is an
  \<open>option\<close>; where the source uses such a field in arithmetic, JavaScript converts
  \<open>null\<close> to \<open>0\<close>, which \<open>toNumber\<close> writes out.
\<close>

record OneEuroFilter =
  freq :: real
  minCutoff :: real
  beta :: real
  dCutoff :: real
  xPrev :: "real option"
  dxPrev :: real
  tPrev :: "real option"

definition toNumber :: "real option \<Rightarrow> real" where
  "toNumber v = (case v of None \<Rightarrow> 0 | Some r \<Rightarrow> r)"

text \<open>The constructor; the source's defaults are \<open>60, 1.0, 0.007, 1.0\<close>.\<close>

definition newOneEuroFilter :: "real \<Rightarrow> real \<Rightarrow> real \<Rightarrow> real \<Rightarrow> OneEuroFilter" where
  "newOneEuroFilter fr mc b dc =
     \<lparr> freq = fr, minCutoff = mc, beta = b, dCutoff = dc,
       xPrev = None, dxPrev = 0, tPrev = None \<rparr>"

definition smoothingFactor :: "real \<Rightarrow> real \<Rightarrow> real" where
  "smoothingFactor cutoff dt = (let r = 2 * pi * cutoff * dt in r / (r + 1))"

text \<open>\<open>filter(x, t)\<close>: the returned value and the filter after the call.\<close>

definition filterOE :: "real \<Rightarrow> real \<Rightarrow> OneEuroFilter \<Rightarrow> real \<times> OneEuroFilter" where
  "filterOE x t f =
     (case tPrev f of
        None \<Rightarrow> (x, f\<lparr> xPrev := Some x, tPrev := Some t, dxPrev := 0 \<rparr>)
      | Some tp \<Rightarrow>
          (let dt = max (1 / 1000000) (t - tp);
               dx = (x - toNumber (xPrev f)) / dt;
               aDx = smoothingFactor (dCutoff f) dt;
               dxSmooth = aDx * dx + (1 - aDx) * dxPrev f;
               cutoff = minCutoff f + beta f * \<bar>dxSmooth\<bar>;
               a = smoothingFactor cutoff dt;
               xSmooth = a * x + (1 - a) * toNumber (xPrev f)
           in (xSmooth,
               f\<lparr> freq := 1 / dt, xPrev := Some xSmooth, dxPrev := dxSmooth, tPrev := Some t \<rparr>)))"

definition reset :: "OneEuroFilter \<Rightarrow> OneEuroFilter" where
  "reset f = f\<lparr> xPrev := None, dxPrev := 0, tPrev := None \<rparr>"

text \<open>A run of \<open>filter\<close> calls on one filter, used to speak about arbitrary history.\<close>

fun filterAll :: "(real \<times> real) list \<Rightarrow> OneEuroFilter \<Rightarrow> OneEuroFilter" where
  "filterAll [] f = f"
| "filterAll ((x, t) # cs) f = filterAll cs (snd (filterOE x t f))"

subsection \<open>The filter step as the specification words it\<close>

text \<open>
  Section 4.1 of the specification: \<open>dt = max(epsilon, t - tPrev)\<close> with
  \<open>epsilon = 1e-6\<close>, the smoothing coefficient of a cutoff, the derivative estimate
  smoothed by the derivative cutoff, and the adaptive cutoff.
\<close>

definition specDt :: "real \<Rightarrow> real \<Rightarrow> real" where
  "specDt t tp = max (1 / 1000000) (t - tp)"

definition specAlpha :: "real \<Rightarrow> real \<Rightarrow> real" where
  "specAlpha cutoff dt = (2 * pi * cutoff * dt) / (2 * pi * cutoff * dt + 1)"

definition specDxSmooth :: "OneEuroFilter \<Rightarrow> real \<Rightarrow> real \<Rightarrow> real \<Rightarrow> real" where
  "specDxSmooth f x xp dt =
     specAlpha (dCutoff f) dt * ((x - xp) / dt) + (1 - specAlpha (dCutoff f) dt) * dxPrev f"

definition specCutoff :: "OneEuroFilter \<Rightarrow> real \<Rightarrow> real" where
  "specCutoff f dxSmooth = minCutoff f + beta f * \<bar>dxSmooth\<bar>"

text \<open>A filter in the middle of a run, used for concrete instances.\<close>

definition demoFilter :: OneEuroFilter where
  "demoFilter = (newOneEuroFilter 60 1 (7 / 1000) 1)\<lparr> xPrev := Some 0, tPrev := Some 5 \<rparr>"

section \<open>Landmarks and the gesture classifiers\<close>

text \<open>
  A landmark is a point \<open>{x, y, z}\<close>; a landmark set is the detector's array of them
  (21 for a hand). Reading a field of an element that is out of range raises a
  \<open>TypeError\<close> in the source, which the classifiers return as \<open>Inl TypeError\<close>.
\<close>

record landmark =
  lm_x :: real
  lm_y :: real
  lm_z :: real

datatype error = TypeError

datatype gesture = GPalm | GPoint | GNone | GPinch | GFist | GPeace | GOpen

definition hypot2 :: "real \<Rightarrow> real \<Rightarrow> real" where
  "hypot2 a b = sqrt (a\<^sup>2 + b\<^sup>2)"

definition hypot3 :: "real \<Rightarrow> real \<Rightarrow> real \<Rightarrow> real" where
  "hypot3 a b c = sqrt (a\<^sup>2 + b\<^sup>2 + c\<^sup>2)"

text \<open>\<open>detectGesture\<close> of the fruit game (unnamed/part_000, lines 317-336).\<close>

definition detectGesture :: "landmark list \<Rightarrow> error + gesture" where
  "detectGesture landmarks =
     (if length landmarks < 21 then Inl TypeError
      else
        (let indexUp = lm_y (landmarks ! 8) < lm_y (landmarks ! 6);
             middleUp = lm_y (landmarks ! 12) < lm_y (landmarks ! 10);
             ringUp = lm_y (landmarks ! 16) < lm_y (landmarks ! 14);
             pinkyUp = lm_y (landmarks ! 20) < lm_y (landmarks ! 18);
             thumbSpread =
               hypot2 (lm_x (landmarks ! 4) - lm_x (landmarks ! 5))
                      (lm_y (landmarks ! 4) - lm_y (landmarks ! 5)) > 5 / 100
         in if indexUp \<and> middleUp \<and> ringUp \<and> pinkyUp \<and> thumbSpread then Inr GPalm
            else
              (let middleDown = lm_y (landmarks ! 12) > lm_y (landmarks ! 10);
                   ringDown = lm_y (landmarks ! 16) > lm_y (landmarks ! 14);
                   pinkyDown = lm_y (landmarks ! 20) > lm_y (landmarks ! 18)
               in if indexUp \<and> middleDown \<and> ringDown \<and> pinkyDown then Inr GPoint
                  else Inr GNone)))"

text \<open>
  \<open>analyzeGesture\<close> of the particle game (Particle Forge, unnamed/part_000, lines 1573-1599). The
  landmarks are bound first and their fields read later, so a short array raises only
  where a missing landmark's field is read: the thumb and index tips for the pinch
  distance, the others after the pinch test.
\<close>

definition analyzeGesture :: "landmark list \<Rightarrow> error + gesture" where
  "analyzeGesture lm =
     (if length lm \<le> 8 then Inl TypeError
      else
        (let thumb = lm ! 4; index = lm ! 8;
             pinchDist = hypot3 (lm_x thumb - lm_x index) (lm_y thumb - lm_y index)
                                (lm_z thumb - lm_z index)
         in if pinchDist < 8 / 100 then Inr GPinch
            else if length lm \<le> 20 then Inl TypeError
            else
              (let middle = lm ! 12; ring = lm ! 16; pinky = lm ! 20;
                   indexMcp = lm ! 5; middleMcp = lm ! 9; ringMcp = lm ! 13; pinkyMcp = lm ! 17;
                   indexUp = lm_y index < lm_y indexMcp;
                   middleUp = lm_y middle < lm_y middleMcp;
                   ringDown = lm_y ring > lm_y ringMcp;
                   pinkyDown = lm_y pinky > lm_y pinkyMcp;
                   fist = (lm_y index > lm_y indexMcp \<and> lm_y middle > lm_y middleMcp
                           \<and> lm_y ring > lm_y ringMcp \<and> lm_y pinky > lm_y pinkyMcp)
               in if fist then Inr GFist
                  else if indexUp \<and> \<not> middleUp \<and> ringDown \<and> pinkyDown then Inr GPoint
                  else if indexUp \<and> middleUp \<and> ringDown \<and> pinkyDown then Inr GPeace
                  else Inr GOpen)))"

text \<open>The four tests of \<open>analyzeGesture\<close>, on a full landmark set.\<close>

definition forgePinch :: "landmark list \<Rightarrow> bool" where
  "forgePinch lm =
     (hypot3 (lm_x (lm ! 4) - lm_x (lm ! 8)) (lm_y (lm ! 4) - lm_y (lm ! 8))
             (lm_z (lm ! 4) - lm_z (lm ! 8)) < 8 / 100)"

definition forgeFist :: "landmark list \<Rightarrow> bool" where
  "forgeFist lm =
     (lm_y (lm ! 8) > lm_y (lm ! 5) \<and> lm_y (lm ! 12) > lm_y (lm ! 9)
      \<and> lm_y (lm ! 16) > lm_y (lm ! 13) \<and> lm_y (lm ! 20) > lm_y (lm ! 17))"

definition forgePoint :: "landmark list \<Rightarrow> bool" where
  "forgePoint lm =
     (lm_y (lm ! 8) < lm_y (lm ! 5) \<and> \<not> lm_y (lm ! 12) < lm_y (lm ! 9)
      \<and> lm_y (lm ! 16) > lm_y (lm ! 13) \<and> lm_y (lm ! 20) > lm_y (lm ! 17))"

definition forgePeace :: "landmark list \<Rightarrow> bool" where
  "forgePeace lm =
     (lm_y (lm ! 8) < lm_y (lm ! 5) \<and> lm_y (lm ! 12) < lm_y (lm ! 9)
      \<and> lm_y (lm ! 16) > lm_y (lm ! 13) \<and> lm_y (lm ! 20) > lm_y (lm ! 17))"

subsection \<open>The classifier as the specification words it\<close>

text \<open>
  The predicates of the specification's section 4.2 (over a full landmark set), and the
  priority order it gives: pinch, then fist, then point, then peace, then palm-open,
  otherwise none. Thresholds are taken from the stated ranges.
\<close>

definition specFingerUp :: "landmark list \<Rightarrow> nat \<Rightarrow> bool" where
  "specFingerUp lm tip = (lm_y (lm ! tip) < lm_y (lm ! (tip - 2)))"

definition specFingerDown :: "landmark list \<Rightarrow> nat \<Rightarrow> bool" where
  "specFingerDown lm tip = (lm_y (lm ! tip) > lm_y (lm ! (tip - 2)))"

definition specThumbSpread :: "landmark list \<Rightarrow> bool" where
  "specThumbSpread lm =
     (hypot2 (lm_x (lm ! 4) - lm_x (lm ! 5)) (lm_y (lm ! 4) - lm_y (lm ! 5)) > 5 / 100)"

definition specPalmOpen :: "landmark list \<Rightarrow> bool" where
  "specPalmOpen lm =
     (specFingerUp lm 8 \<and> specFingerUp lm 12 \<and> specFingerUp lm 16 \<and> specFingerUp lm 20
      \<and> specThumbSpread lm)"

definition specPoint :: "landmark list \<Rightarrow> bool" where
  "specPoint lm =
     (specFingerUp lm 8 \<and> specFingerDown lm 12 \<and> specFingerDown lm 16 \<and> specFingerDown lm 20)"

definition specPinch :: "landmark list \<Rightarrow> bool" where
  "specPinch lm =
     (hypot2 (lm_x (lm ! 4) - lm_x (lm ! 8)) (lm_y (lm ! 4) - lm_y (lm ! 8)) < 8 / 100)"

definition specFist :: "landmark list \<Rightarrow> bool" where
  "specFist lm = (3 \<le> length (filter (specFingerDown lm) [8, 12, 16, 20]))"

definition specPeace :: "landmark list \<Rightarrow> bool" where
  "specPeace lm =
     (specFingerUp lm 8 \<and> specFingerUp lm 12 \<and> specFingerDown lm 16 \<and> specFingerDown lm 20)"

definition specClassify :: "landmark list \<Rightarrow> gesture" where
  "specClassify lm =
     (if specPinch lm then GPinch
      else if specFist lm then GFist
      else if specPoint lm then GPoint
      else if specPeace lm then GPeace
      else if specPalmOpen lm then GPalm
      else GNone)"

text \<open>Concrete landmark sets: every landmark at \<open>(1/2, 1/2)\<close> except the listed tips.\<close>

definition lmAt :: "real \<Rightarrow> real \<Rightarrow> landmark" where
  "lmAt x y = \<lparr> lm_x = x, lm_y = y, lm_z = 0 \<rparr>"

text \<open>
  All four fingertips (8, 12, 16, 20) above their PIP joints, the thumb tip (4) on the
  index tip and far from the index MCP (5): an open palm whose thumb touches the index.
\<close>

definition palmWithPinch :: "landmark list" where
  "palmWithPinch =
     [lmAt (1/2) (1/2), lmAt (1/2) (1/2), lmAt (1/2) (1/2), lmAt (1/2) (1/2),
      lmAt (1/2) (1/5),
      lmAt (1/2) (1/2), lmAt (1/2) (1/2), lmAt (1/2) (1/2),
      lmAt (1/2) (1/5),
      lmAt (1/2) (1/2), lmAt (1/2) (1/2), lmAt (1/2) (1/2),
      lmAt (1/2) (1/5),
      lmAt (1/2) (1/2), lmAt (1/2) (1/2), lmAt (1/2) (1/2),
      lmAt (1/2) (1/5),
      lmAt (1/2) (1/2), lmAt (1/2) (1/2), lmAt (1/2) (1/2),
      lmAt (1/2) (1/5)]"

text \<open>The same palm with the thumb tip held away from the index tip.\<close>

definition openPalm :: "landmark list" where
  "openPalm = palmWithPinch[4 := lmAt (1/5) (1/2)]"

section \<open>The cursor tracker (hand-tracker.js, class HandCursor)\<close>

text \<open>
  The tracker's fields: the two filters of the primary hand, the \<open>cursor\<close> object
  (fields \<open>cur_\<close>), the \<open>secondHand\<close> object (fields \<open>sh_\<close>) and the pinch
  timer. DOM updates (the cursor element, the ripple) are presentation and are left out,
  and so is the \<open>onResults\<close> callback, which hands the detector's results on
  unchanged; a call of one of the other callbacks is an event of the returned list, as
  if every callback were registered. \<open>pinchStartTime\<close> is a \<open>Date.now()\<close> value
  in milliseconds, with \<open>0\<close> meaning "not started" (the source tests
  \<open>!this.pinchStartTime\<close>).
\<close>

record HandCursor =
  filters_x :: OneEuroFilter
  filters_y :: OneEuroFilter
  cur_x :: real
  cur_y :: real
  cur_screenX :: real
  cur_screenY :: real
  cur_visible :: bool
  cur_pinching :: bool
  cur_pointing :: bool
  cur_fistClosed :: bool
  cur_palmOpen :: bool
  sh_x :: real
  sh_y :: real
  sh_visible :: bool
  sh_pinching :: bool
  PINCH_THRESHOLD :: real
  pinchStartTime :: int
  PINCH_HOLD_MS :: int

text \<open>
  What one call of \<open>_onResults\<close> reads from its environment: the detector's landmark
  sets (\<open>None\<close> for a missing array), \<open>performance.now()\<close>, \<open>Date.now()\<close> and the
  window size.
\<close>

record frame =
  multiHandLandmarks :: "landmark list list option"
  perfNow :: real
  dateNow :: int
  innerWidth :: real
  innerHeight :: real

datatype hc_event =
    OnPalmOpen real real
  | OnPinch real real
  | OnRelease real real
  | OnMove real real

text \<open>The constructor: \<open>options.pinchThreshold || 0.08\<close> replaces a missing or zero value.\<close>

definition newHandCursor :: "real option \<Rightarrow> real \<Rightarrow> real \<Rightarrow> HandCursor" where
  "newHandCursor pinchThreshold w h =
     \<lparr> filters_x = newOneEuroFilter 60 (12 / 10) (5 / 1000) 1,
       filters_y = newOneEuroFilter 60 (12 / 10) (5 / 1000) 1,
       cur_x = 1 / 2, cur_y = 1 / 2, cur_screenX = w / 2, cur_screenY = h / 2,
       cur_visible = False, cur_pinching = False, cur_pointing = False,
       cur_fistClosed = False, cur_palmOpen = False,
       sh_x = 1 / 2, sh_y = 1 / 2, sh_visible = False, sh_pinching = False,
       PINCH_THRESHOLD =
         (case pinchThreshold of None \<Rightarrow> 8 / 100 | Some v \<Rightarrow> if v = 0 then 8 / 100 else v),
       pinchStartTime = 0,
       PINCH_HOLD_MS = 60 \<rparr>"

definition isPinching :: "real \<Rightarrow> landmark \<Rightarrow> landmark \<Rightarrow> bool" where
  "isPinching threshold thumbTip indexTip =
     (let dist = sqrt ((lm_x thumbTip - lm_x indexTip)\<^sup>2 + (lm_y thumbTip - lm_y indexTip)\<^sup>2)
      in dist < threshold)"

definition isPointing :: "landmark list \<Rightarrow> bool" where
  "isPointing landmarks =
     (let indexExtended = lm_y (landmarks ! 8) < lm_y (landmarks ! 6);
          middleCurled = lm_y (landmarks ! 12) > lm_y (landmarks ! 10);
          ringCurled = lm_y (landmarks ! 16) > lm_y (landmarks ! 14);
          pinkyCurled = lm_y (landmarks ! 20) > lm_y (landmarks ! 18)
      in indexExtended \<and> middleCurled \<and> ringCurled \<and> pinkyCurled)"

definition fingerCurledHC :: "landmark list \<Rightarrow> nat \<times> nat \<Rightarrow> bool" where
  "fingerCurledHC landmarks tp =
     (let wrist = landmarks ! 0;
          tipToWrist = hypot2 (lm_x (landmarks ! fst tp) - lm_x wrist)
                              (lm_y (landmarks ! fst tp) - lm_y wrist);
          pipToWrist = hypot2 (lm_x (landmarks ! snd tp) - lm_x wrist)
                              (lm_y (landmarks ! snd tp) - lm_y wrist)
      in tipToWrist < pipToWrist * (85 / 100))"

definition isFistClosedHC :: "landmark list \<Rightarrow> bool" where
  "isFistClosedHC landmarks =
     (let curled = length (filter (fingerCurledHC landmarks) (zip [8, 12, 16, 20] [6, 10, 14, 18]))
      in curled \<ge> 3)"

definition isPalmOpen :: "landmark list \<Rightarrow> bool" where
  "isPalmOpen landmarks =
     (let fingersExt =
            list_all (\<lambda>tipIdx. lm_y (landmarks ! tipIdx) < lm_y (landmarks ! (tipIdx - 2)))
                     [8, 12, 16, 20];
          thumbSpread =
            hypot2 (lm_x (landmarks ! 4) - lm_x (landmarks ! 5))
                   (lm_y (landmarks ! 4) - lm_y (landmarks ! 5)) > 6 / 100
      in fingersExt \<and> thumbSpread)"

text \<open>
  The pinch block of \<open>_onResults\<close> (lines 252-267), for the primary hand: \<open>pinching\<close>
  is this frame's pinch predicate, \<open>now\<close> is \<open>Date.now()\<close>.
\<close>

definition pinchBlock :: "bool \<Rightarrow> int \<Rightarrow> HandCursor \<Rightarrow> HandCursor \<times> hc_event list" where
  "pinchBlock pinching now s =
     (if pinching \<and> \<not> cur_pinching s then
        (if pinchStartTime s = 0 then (s\<lparr> pinchStartTime := now \<rparr>, [])
         else if now - pinchStartTime s > PINCH_HOLD_MS s then
           (s\<lparr> cur_pinching := True, pinchStartTime := 0 \<rparr>, [OnPinch (cur_x s) (cur_y s)])
         else (s, []))
      else if \<not> pinching then
        (if cur_pinching s then
           (s\<lparr> cur_pinching := False, pinchStartTime := 0 \<rparr>, [OnRelease (cur_x s) (cur_y s)])
         else (s\<lparr> pinchStartTime := 0 \<rparr>, []))
      else (s, []))"

text \<open>The loop body for the first detected hand (\<open>i === 0\<close>).\<close>

definition primaryHand :: "landmark list \<Rightarrow> frame \<Rightarrow> HandCursor \<Rightarrow> HandCursor \<times> hc_event list" where
  "primaryHand landmarks fr s =
     (let indexTip = landmarks ! 8;
          thumbTip = landmarks ! 4;
          pointing = isPointing landmarks;
          pinching = isPinching (PINCH_THRESHOLD s) thumbTip indexTip;
          palmOpen = isPalmOpen landmarks;
          t = perfNow fr / 1000;
          rawX = 1 - lm_x indexTip;
          rawY = lm_y indexTip;
          rx = filterOE rawX t (filters_x s);
          ry = filterOE rawY t (filters_y s);
          s1 = s\<lparr> filters_x := snd rx, filters_y := snd ry,
                  cur_x := fst rx, cur_y := fst ry,
                  cur_screenX := fst rx * innerWidth fr,
                  cur_screenY := fst ry * innerHeight fr,
                  cur_visible := True,
                  cur_pointing := pointing,
                  cur_fistClosed := isFistClosedHC landmarks,
                  cur_palmOpen := palmOpen \<rparr>;
          evPalm = (if palmOpen then [OnPalmOpen (cur_x s1) (cur_y s1)] else []);
          r = pinchBlock pinching (dateNow fr) s1
      in (fst r, evPalm @ snd r @ [OnMove (cur_x (fst r)) (cur_y (fst r))]))"

text \<open>The loop body for every further hand.\<close>

definition otherHand :: "landmark list \<Rightarrow> HandCursor \<Rightarrow> HandCursor" where
  "otherHand landmarks s =
     (let indexTip = landmarks ! 8;
          thumbTip = landmarks ! 4;
          pinching = isPinching (PINCH_THRESHOLD s) thumbTip indexTip
      in s\<lparr> sh_x := 1 - lm_x indexTip, sh_y := lm_y indexTip,
            sh_visible := True, sh_pinching := pinching \<rparr>)"

text \<open>
  The loop over the detected hands, from index \<open>i\<close>. \<open>_isPointing\<close> reads landmark 20
  of every hand before anything is stored for it, so a set of fewer than 21 landmarks
  raises there; the model then returns the error alone.
\<close>

fun handLoop :: "nat \<Rightarrow> landmark list list \<Rightarrow> frame \<Rightarrow> HandCursor
                 \<Rightarrow> error + (HandCursor \<times> hc_event list)" where
  "handLoop i [] fr s = Inr (s, [])"
| "handLoop i (landmarks # rest) fr s =
     (if length landmarks < 21 then Inl TypeError
      else
        (let r = (if i = 0 then primaryHand landmarks fr s else (otherHand landmarks s, []))
         in case handLoop (Suc i) rest fr (fst r) of
              Inl e \<Rightarrow> Inl e
            | Inr (s', evs) \<Rightarrow> Inr (s', snd r @ evs)))"

definition handLost :: "HandCursor \<Rightarrow> HandCursor" where
  "handLost s =
     s\<lparr> cur_visible := False, sh_visible := False,
        filters_x := reset (filters_x s), filters_y := reset (filters_y s) \<rparr>"

definition onResults :: "frame \<Rightarrow> HandCursor \<Rightarrow> error + (HandCursor \<times> hc_event list)" where
  "onResults fr s =
     (case multiHandLandmarks fr of
        None \<Rightarrow> Inr (handLost s, [])
      | Some [] \<Rightarrow> Inr (handLost s, [])
      | Some (l # ls) \<Rightarrow> handLoop 0 (l # ls) fr s)"

text \<open>A sequence of frames, with the events of each frame kept apart.\<close>

fun runFrames :: "frame list \<Rightarrow> HandCursor \<Rightarrow> error + (HandCursor \<times> hc_event list list)" where
  "runFrames [] s = Inr (s, [])"
| "runFrames (fr # frs) s =
     (case onResults fr s of
        Inl e \<Rightarrow> Inl e
      | Inr (s1, evs) \<Rightarrow>
          (case runFrames frs s1 of
             Inl e \<Rightarrow> Inl e
           | Inr (s2, evss) \<Rightarrow> Inr (s2, evs # evss)))"

subsection \<open>Vocabulary for the pinch debouncer\<close>

text \<open>
  The pinch predicate of a frame is that of its first detected hand; a frame without a
  hand has none. \<open>holdSpans\<close> gives, for each maximal run of consecutive frames on which
  the predicate holds, the time from the run's first frame to its last.
\<close>

definition framePinching :: "real \<Rightarrow> frame \<Rightarrow> bool" where
  "framePinching threshold fr =
     (case multiHandLandmarks fr of
        Some (l # ls) \<Rightarrow> isPinching threshold (l ! 4) (l ! 8)
      | _ \<Rightarrow> False)"

definition handPresent :: "frame \<Rightarrow> bool" where
  "handPresent fr =
     (case multiHandLandmarks fr of
        Some (l # ls) \<Rightarrow> list_all (\<lambda>h. 21 \<le> length h) (l # ls)
      | _ \<Rightarrow> False)"

fun holdSpans :: "(bool \<times> int) list \<Rightarrow> (int \<times> int) option \<Rightarrow> int list" where
  "holdSpans [] None = []"
| "holdSpans [] (Some (a, b)) = [b - a]"
| "holdSpans ((p, t) # fs) None = (if p then holdSpans fs (Some (t, t)) else holdSpans fs None)"
| "holdSpans ((p, t) # fs) (Some (a, b)) =
     (if p then holdSpans fs (Some (a, t)) else (b - a) # holdSpans fs None)"

definition isOnPinch :: "hc_event \<Rightarrow> bool" where
  "isOnPinch e = (case e of OnPinch x y \<Rightarrow> True | _ \<Rightarrow> False)"

definition isOnRelease :: "hc_event \<Rightarrow> bool" where
  "isOnRelease e = (case e of OnRelease x y \<Rightarrow> True | _ \<Rightarrow> False)"

text \<open>How often an event of a kind fires on each frame of a run (\<open>None\<close> if it raised).\<close>

definition eventCounts :: "(hc_event \<Rightarrow> bool) \<Rightarrow> error + (HandCursor \<times> hc_event list list)
                            \<Rightarrow> nat list option" where
  "eventCounts P r =
     (case r of Inl e \<Rightarrow> None
      | Inr (s, evss) \<Rightarrow> Some (map (\<lambda>evs. length (filter P evs)) evss))"

definition endsIdle :: "error + (HandCursor \<times> hc_event list list) \<Rightarrow> bool" where
  "endsIdle r = (case r of Inl e \<Rightarrow> False
                 | Inr (s, evss) \<Rightarrow> \<not> cur_pinching s \<and> pinchStartTime s = 0)"

text \<open>
  The debouncer seen on its own state: \<open>pinchView\<close> is the pair of \<open>cursor.pinching\<close>
  and \<open>pinchStartTime\<close>, \<open>frameView\<close> is what the pinch block reads from a frame
  (\<open>None\<close> for a frame without a hand, on which \<open>_onResults\<close> returns before the
  block), and \<open>pinchStep\<close> is the pinch block on these, with the numbers of
  \<open>onPinch\<close> and \<open>onRelease\<close> calls it makes. The proofs below show that
  \<open>onResults\<close> acts on the view as \<open>pinchStep\<close> does.
\<close>

definition pinchView :: "HandCursor \<Rightarrow> bool \<times> int" where
  "pinchView s = (cur_pinching s, pinchStartTime s)"

definition pinchCount :: "hc_event list \<Rightarrow> nat \<times> nat" where
  "pinchCount evs = (length (filter isOnPinch evs), length (filter isOnRelease evs))"

definition frameView :: "real \<Rightarrow> frame \<Rightarrow> (bool \<times> int) option" where
  "frameView threshold fr =
     (if handPresent fr then Some (framePinching threshold fr, dateNow fr) else None)"

definition handAbsent :: "frame \<Rightarrow> bool" where
  "handAbsent fr = (multiHandLandmarks fr = None \<or> multiHandLandmarks fr = Some [])"

definition pinchStep :: "int \<Rightarrow> (bool \<times> int) option \<Rightarrow> bool \<times> int
                          \<Rightarrow> (bool \<times> int) \<times> (nat \<times> nat)" where
  "pinchStep hold fv v =
     (case fv of
        None \<Rightarrow> (v, (0, 0))
      | Some (p, now) \<Rightarrow>
          (if p \<and> \<not> fst v then
             (if snd v = 0 then ((fst v, now), (0, 0))
              else if now - snd v > hold then ((True, 0), (1, 0))
              else (v, (0, 0)))
           else if \<not> p then
             (if fst v then ((False, 0), (0, 1)) else ((False, 0), (0, 0)))
           else (v, (0, 0))))"

fun pinchRun :: "int \<Rightarrow> (bool \<times> int) option list \<Rightarrow> bool \<times> int
                 \<Rightarrow> (bool \<times> int) \<times> (nat \<times> nat) list" where
  "pinchRun hold [] v = (v, [])"
| "pinchRun hold (fv # fs) v =
     (let r = pinchStep hold fv v; q = pinchRun hold fs (fst r)
      in (fst q, snd r # snd q))"

text \<open>Concrete frames: the given hands at \<open>Date.now() = now\<close>, in a 1280 by 720 window.\<close>

definition frameAt :: "landmark list list \<Rightarrow> int \<Rightarrow> frame" where
  "frameAt hs now =
     \<lparr> multiHandLandmarks = Some hs, perfNow = real_of_int now, dateNow = now,
       innerWidth = 1280, innerHeight = 720 \<rparr>"

text \<open>
  A hand seen pinching on one frame, lost on the next frames, and seen pinching on one
  frame again ten seconds after the first sight.
\<close>

definition lostAndFound :: "frame list" where
  "lostAndFound =
     [frameAt [palmWithPinch] 1000, frameAt [] 1016, frameAt [] 6000,
      frameAt [palmWithPinch] 11000]"

text \<open>Two hands on one frame, a single hand on the next.\<close>

definition secondHandLeaves :: "frame list" where
  "secondHandLeaves = [frameAt [openPalm, openPalm] 1000, frameAt [openPalm] 1016]"

section \<open>The boxing tracker (games/flappy/flappy.js, class BoxingTracker)\<close>

text \<open>
  The tracker keeps one slot per hand label (\<open>'left'\<close>, \<open>'right'\<close>); the field
  \<open>punchSt\<close> is the source's \<open>punchState\<close>. Times are \<open>Date.now()\<close> values in
  milliseconds, and a callback call is an event of the returned list, as if every
  callback were registered. The thresholds are set once by the constructor
  and never written again; they are constants here. \<open>armLength\<close> and \<open>forwardZ\<close>,
  which the tracker stores for the renderer and never reads, are left out, and so is the
  local \<open>dt\<close> of \<open>_detectPunch\<close>, which is computed and not used.
\<close>

datatype side = SideLeft | SideRight

datatype punchType = Jab | Hook | Uppercut

record hand =
  h_x :: real
  h_y :: real
  h_z :: real
  h_prevZ :: real
  h_prevX :: real
  h_prevY :: real
  h_visible :: bool
  h_fistClosed :: bool

record punchState =
  reaching :: bool
  startZ :: real
  peakZ :: real
  startTime :: int
  startY :: real
  startX :: real
  extended :: bool

record histEntry =
  e_x :: real
  e_y :: real
  e_z :: real
  e_t :: int

record punchRecord =
  lp_hand :: side
  lp_type :: punchType
  lp_power :: real
  lp_time :: int
  lp_reach :: real

record BoxingTracker =
  hands :: "side \<Rightarrow> hand"
  punchCooldown :: "side \<Rightarrow> int"
  punchSt :: "side \<Rightarrow> punchState"
  isGuarding :: bool
  guardStartTime :: int
  dodgeDirection :: "side option"
  dodgeCooldown :: int
  centerSmooth :: real
  lastPunch :: "punchRecord option"
  history :: "side \<Rightarrow> histEntry list"

datatype bx_event =
    OnPunch side punchType real real real real
  | OnGuardChange bool
  | OnDodge side

definition PUNCH_COOLDOWN_MS :: int where "PUNCH_COOLDOWN_MS = 250"
definition PUNCH_VELOCITY_THRESHOLD :: real where "PUNCH_VELOCITY_THRESHOLD = 5 / 1000"
definition PUNCH_REACH_TIME :: int where "PUNCH_REACH_TIME = 400"
definition MIN_PUNCH_TRAVEL :: real where "MIN_PUNCH_TRAVEL = 2 / 100"
definition GUARD_Y_THRESHOLD :: real where "GUARD_Y_THRESHOLD = 45 / 100"
definition GUARD_X_RANGE :: real where "GUARD_X_RANGE = 25 / 100"
definition DODGE_COOLDOWN_MS :: int where "DODGE_COOLDOWN_MS = 500"
definition DODGE_X_THRESHOLD :: real where "DODGE_X_THRESHOLD = 15 / 100"
definition MAX_HISTORY :: nat where "MAX_HISTORY = 5"

text \<open>
  The constructor. \<open>startY\<close> and \<open>startX\<close> do not exist before the first reach
  starts; they are read only while \<open>reaching\<close> is set, after a start has stored them.
\<close>

definition newBoxingTracker :: BoxingTracker where
  "newBoxingTracker =
     \<lparr> hands = (\<lambda>l. case l of
          SideLeft \<Rightarrow> \<lparr> h_x = 3 / 10, h_y = 7 / 10, h_z = 0, h_prevZ = 0, h_prevX = 3 / 10,
                        h_prevY = 7 / 10, h_visible = False, h_fistClosed = False \<rparr>
        | SideRight \<Rightarrow> \<lparr> h_x = 7 / 10, h_y = 7 / 10, h_z = 0, h_prevZ = 0, h_prevX = 7 / 10,
                         h_prevY = 7 / 10, h_visible = False, h_fistClosed = False \<rparr>),
       punchCooldown = (\<lambda>l. 0),
       punchSt = (\<lambda>l. \<lparr> reaching = False, startZ = 0, peakZ = 0, startTime = 0,
                           startY = 0, startX = 0, extended = False \<rparr>),
       isGuarding = False,
       guardStartTime = 0,
       dodgeDirection = None,
       dodgeCooldown = 0,
       centerSmooth = 1 / 2,
       lastPunch = None,
       history = (\<lambda>l. []) \<rparr>"

definition isFistClosed :: "landmark list \<Rightarrow> bool" where
  "isFistClosed landmarks =
     (let curled = length (filter (\<lambda>tm. lm_y (landmarks ! fst tm) > lm_y (landmarks ! snd tm))
                                  (zip [8, 12, 16, 20] [5, 9, 13, 17]))
      in curled \<ge> 3)"

text \<open>
  \<open>punchSpeed > c\<close>, where \<open>punchSpeed = travelDistance / ((now - startTime) / 1000)\<close>.
  With no time elapsed the quotient is \<open>Infinity\<close> for a positive travel and \<open>NaN\<close>
  for a zero travel in the source, so the comparison is true exactly for a positive travel.
\<close>

definition punchSpeedAbove :: "real \<Rightarrow> int \<Rightarrow> real \<Rightarrow> bool" where
  "punchSpeedAbove travelDistance elapsed c =
     (if elapsed = 0 then travelDistance > 0
      else travelDistance / (real_of_int elapsed / 1000) > c)"

definition punchPower :: "real \<Rightarrow> real \<Rightarrow> real \<Rightarrow> real \<Rightarrow> int \<Rightarrow> bool \<Rightarrow> punchType \<times> real" where
  "punchPower travelDistance yTravel xTravel handY elapsed fist =
     (let tp = (if yTravel > 8 / 100 \<and> handY < 45 / 100 then
                  (Uppercut, 16 / 10 + min (yTravel * 4) (14 / 10))
                else if xTravel > 8 / 100 then
                  (Hook, 13 / 10 + min (xTravel * 3) (12 / 10))
                else (Jab, 1 + min (travelDistance * 6) 1));
          p1 = (if punchSpeedAbove travelDistance elapsed (3 / 10) then snd tp + 3 / 10 else snd tp);
          p2 = (if punchSpeedAbove travelDistance elapsed (5 / 10) then p1 + 3 / 10 else p1);
          p3 = (if fist then p2 + 2 / 10 else p2)
      in (fst tp, p3))"

text \<open>
  The locals of \<open>_detectPunch(label, hand, landmarks, now)\<close>, as functions of the
  label, the time and the tracker (\<open>hand\<close> is \<open>this.hands[label]\<close>, and
  \<open>landmarks\<close> is not read). The velocities are differences between the newest history
  entry and the one two before it.
\<close>

definition zVelocity :: "histEntry list \<Rightarrow> real" where
  "zVelocity hist = e_z (hist ! (length hist - 3)) - e_z (hist ! (length hist - 1))"

definition yVelocity :: "histEntry list \<Rightarrow> real" where
  "yVelocity hist = e_y (hist ! (length hist - 3)) - e_y (hist ! (length hist - 1))"

definition xVelocity :: "histEntry list \<Rightarrow> real" where
  "xVelocity hist = e_x (hist ! (length hist - 1)) - e_x (hist ! (length hist - 3))"

definition currentReach :: "side \<Rightarrow> BoxingTracker \<Rightarrow> real" where
  "currentReach label s = - h_z (hands s label)"

text \<open>The punch state after the update of the peak reach.\<close>

definition trackedState :: "side \<Rightarrow> BoxingTracker \<Rightarrow> punchState" where
  "trackedState label s =
     (if currentReach label s > peakZ (punchSt s label)
      then (punchSt s label)\<lparr> peakZ := currentReach label s \<rparr>
      else punchSt s label)"

definition travelDistance :: "side \<Rightarrow> BoxingTracker \<Rightarrow> real" where
  "travelDistance label s = peakZ (trackedState label s) - startZ (trackedState label s)"

definition yTravel :: "side \<Rightarrow> BoxingTracker \<Rightarrow> real" where
  "yTravel label s = startY (punchSt s label) - h_y (hands s label)"

definition xTravel :: "side \<Rightarrow> BoxingTracker \<Rightarrow> real" where
  "xTravel label s = \<bar>h_x (hands s label) - startX (punchSt s label)\<bar>"

definition elapsed :: "side \<Rightarrow> int \<Rightarrow> BoxingTracker \<Rightarrow> int" where
  "elapsed label now s = now - startTime (punchSt s label)"

definition isExtended :: "side \<Rightarrow> int \<Rightarrow> BoxingTracker \<Rightarrow> bool" where
  "isExtended label now s =
     (travelDistance label s > MIN_PUNCH_TRAVEL \<or> yTravel label s > 3 / 100
      \<or> xTravel label s > 3 / 100 \<or> elapsed label now s > 100)"

definition punchTimedOut :: "side \<Rightarrow> int \<Rightarrow> BoxingTracker \<Rightarrow> bool" where
  "punchTimedOut label now s = (elapsed label now s > PUNCH_REACH_TIME)"

definition armRetreating :: "side \<Rightarrow> BoxingTracker \<Rightarrow> bool" where
  "armRetreating label s = (zVelocity (history s label) < - (1 / 100))"

definition punchComplete :: "side \<Rightarrow> int \<Rightarrow> BoxingTracker \<Rightarrow> bool" where
  "punchComplete label now s =
     (punchTimedOut label now s \<or> (isExtended label now s \<and> armRetreating label s))"

text \<open>Phase 1 of the state machine: the start of a punch (\<open>state.reaching\<close> is false).\<close>

definition punchStart :: "side \<Rightarrow> int \<Rightarrow> BoxingTracker \<Rightarrow> BoxingTracker \<times> bx_event list" where
  "punchStart label now s =
     (let hnd = hands s label;
          startingPunch = zVelocity (history s label) > PUNCH_VELOCITY_THRESHOLD;
          startingUppercut = (yVelocity (history s label) > 2 / 100 \<and> h_y hnd < 6 / 10);
          startingHook = \<bar>xVelocity (history s label)\<bar> > 2 / 100
      in if startingPunch \<or> startingUppercut \<or> startingHook then
           (s\<lparr> punchSt := (punchSt s)(label :=
                 \<lparr> reaching = True, startZ = currentReach label s, peakZ = currentReach label s,
                   startTime = now, startY = h_y hnd, startX = h_x hnd,
                   extended = False \<rparr>) \<rparr>, [])
         else (s, []))"

text \<open>The valid punch: type, power, cooldown, \<open>lastPunch\<close>, the callback, the reset.\<close>

definition firePunch :: "side \<Rightarrow> int \<Rightarrow> BoxingTracker \<Rightarrow> BoxingTracker \<times> bx_event list" where
  "firePunch label now s =
     (let hnd = hands s label;
          tp = punchPower (travelDistance label s) (yTravel label s) (xTravel label s) (h_y hnd)
                          (elapsed label now s) (h_fistClosed hnd)
      in (s\<lparr> punchCooldown := (punchCooldown s)(label := now),
             lastPunch := Some \<lparr> lp_hand = label, lp_type = fst tp, lp_power = snd tp,
                                  lp_time = now, lp_reach = travelDistance label s \<rparr>,
             punchSt := (punchSt s)(label :=
               (trackedState label s)\<lparr> reaching := False, extended := False \<rparr>) \<rparr>,
          [OnPunch label (fst tp) (snd tp) (h_x hnd) (h_y hnd) (travelDistance label s)]))"

text \<open>Phase 2: the extension is tracked while \<open>state.reaching\<close> is true.\<close>

definition punchTrack :: "side \<Rightarrow> int \<Rightarrow> BoxingTracker \<Rightarrow> BoxingTracker \<times> bx_event list" where
  "punchTrack label now s =
     (if punchComplete label now s \<and> isExtended label now s then firePunch label now s
      else if punchTimedOut label now s \<and> \<not> isExtended label now s then
        (s\<lparr> punchSt := (punchSt s)(label :=
              (trackedState label s)\<lparr> reaching := False, extended := False \<rparr>) \<rparr>, [])
      else (s\<lparr> punchSt := (punchSt s)(label := trackedState label s) \<rparr>, []))"

definition detectPunch :: "side \<Rightarrow> int \<Rightarrow> BoxingTracker \<Rightarrow> BoxingTracker \<times> bx_event list" where
  "detectPunch label now s =
     (if now - punchCooldown s label < PUNCH_COOLDOWN_MS then (s, [])
      else if isGuarding s then (s, [])
      else if length (history s label) < 3 then (s, [])
      else if \<not> reaching (punchSt s label) then punchStart label now s
      else punchTrack label now s)"

text \<open>The guard predicate computed by \<open>_updateGuard\<close> when both hands are visible.\<close>

definition shouldGuard :: "hand \<Rightarrow> hand \<Rightarrow> bool" where
  "shouldGuard L R =
     (let bothHigh = (h_y L < GUARD_Y_THRESHOLD \<and> h_y R < GUARD_Y_THRESHOLD);
          bothCenter = (\<bar>h_x L - 1 / 2\<bar> < GUARD_X_RANGE \<and> \<bar>h_x R - 1 / 2\<bar> < GUARD_X_RANGE);
          handsClose = \<bar>h_x L - h_x R\<bar> < 35 / 100
      in bothHigh \<and> bothCenter \<and> handsClose)"

definition updateGuard :: "int \<Rightarrow> BoxingTracker \<Rightarrow> BoxingTracker \<times> bx_event list" where
  "updateGuard now s =
     (let L = hands s SideLeft; R = hands s SideRight in
      if \<not> h_visible L \<or> \<not> h_visible R then
        (if isGuarding s then (s\<lparr> isGuarding := False \<rparr>, [OnGuardChange False]) else (s, []))
      else if shouldGuard L R \<and> \<not> isGuarding s then
        (s\<lparr> isGuarding := True, guardStartTime := now \<rparr>, [OnGuardChange True])
      else if \<not> shouldGuard L R \<and> isGuarding s then
        (s\<lparr> isGuarding := False \<rparr>, [OnGuardChange False])
      else (s, []))"

text \<open>
  \<open>_updateDodge\<close>. The source computes \<open>avgX\<close> twice; the second computation, the
  mean of the visible hands' \<open>x\<close>, overwrites the first whenever a hand is visible,
  which is the case past the early return.
\<close>

definition updateDodge :: "int \<Rightarrow> BoxingTracker \<Rightarrow> BoxingTracker \<times> bx_event list" where
  "updateDodge now s =
     (if now - dodgeCooldown s < DODGE_COOLDOWN_MS then (s, [])
      else
        (let L = hands s SideLeft; R = hands s SideRight in
         if \<not> h_visible L \<and> \<not> h_visible R then (s\<lparr> dodgeDirection := None \<rparr>, [])
         else
           (let count = (if h_visible L then 1 else 0) + (if h_visible R then (1::nat) else 0);
                total = (if h_visible L then h_x L else 0) + (if h_visible R then h_x R else 0);
                avgX = total / real count;
                s1 = s\<lparr> centerSmooth := centerSmooth s * (95 / 100) + avgX * (5 / 100) \<rparr>;
                shift = avgX - 1 / 2;
                newDodge = (if shift < - DODGE_X_THRESHOLD then Some SideLeft
                            else if shift > DODGE_X_THRESHOLD then Some SideRight
                            else None)
            in case newDodge of
                 Some d \<Rightarrow>
                   (if newDodge \<noteq> dodgeDirection s1 then
                      (s1\<lparr> dodgeDirection := newDodge, dodgeCooldown := now \<rparr>, [OnDodge d])
                    else (s1, []))
               | None \<Rightarrow> (s1\<lparr> dodgeDirection := None \<rparr>, []))))"

text \<open>
  One detected hand of a frame: the detector's handedness label and its landmarks. The
  detector's label is mirrored (\<open>'Left'\<close> is the user's right hand).
\<close>

record detection =
  handedness :: string
  landmarks :: "landmark list"

record bframe =
  detections :: "detection list"
  b_now :: int

definition handLabel :: "detection \<Rightarrow> side" where
  "handLabel d = (if handedness d = ''Left'' then SideRight else SideLeft)"

definition pushHistory :: "histEntry \<Rightarrow> histEntry list \<Rightarrow> histEntry list" where
  "pushHistory e hist =
     (let h1 = hist @ [e] in if length h1 > MAX_HISTORY then tl h1 else h1)"

text \<open>The body of the loop of \<open>update\<close> for one detected hand.\<close>

definition processHand :: "int \<Rightarrow> detection \<Rightarrow> BoxingTracker \<Rightarrow> BoxingTracker \<times> bx_event list" where
  "processHand now d s =
     (let lms = landmarks d;
          label = handLabel d;
          hnd = hands s label;
          wrist = lms ! 0;
          midMCP = lms ! 9;
          hnd1 = hnd\<lparr> h_prevX := h_x hnd, h_prevY := h_y hnd, h_prevZ := h_z hnd,
                      h_x := (lm_x wrist + lm_x midMCP) / 2,
                      h_y := (lm_y wrist + lm_y midMCP) / 2,
                      h_z := lm_z wrist,
                      h_visible := True,
                      h_fistClosed := isFistClosed lms \<rparr>;
          s1 = s\<lparr> hands := (hands s)(label := hnd1),
                  history := (history s)(label :=
                    pushHistory \<lparr> e_x = h_x hnd1, e_y = h_y hnd1, e_z = h_z hnd1, e_t = now \<rparr>
                                (history s label)) \<rparr>
      in detectPunch label now s1)"

text \<open>
  The loop. A landmark set shorter than 21 raises when \<open>_isFistClosed\<close> (or the wrist
  and knuckle reads before it) reaches the missing landmark; the source has then already
  stored part of that hand, and the model returns the error alone.
\<close>

fun processHands :: "int \<Rightarrow> detection list \<Rightarrow> BoxingTracker
                     \<Rightarrow> error + (BoxingTracker \<times> bx_event list)" where
  "processHands now [] s = Inr (s, [])"
| "processHands now (d # ds) s =
     (if length (landmarks d) < 21 then Inl TypeError
      else
        (let r = processHand now d s
         in case processHands now ds (fst r) of
              Inl e \<Rightarrow> Inl e
            | Inr (s', evs) \<Rightarrow> Inr (s', snd r @ evs)))"

definition clearVisible :: "BoxingTracker \<Rightarrow> BoxingTracker" where
  "clearVisible s =
     s\<lparr> hands := (\<lambda>l. (hands s l)\<lparr> h_visible := False \<rparr>) \<rparr>"

definition guardAndDodge :: "int \<Rightarrow> BoxingTracker \<Rightarrow> BoxingTracker \<times> bx_event list" where
  "guardAndDodge now s =
     (let g = updateGuard now s; d = updateDodge now (fst g) in (fst d, snd g @ snd d))"

definition update :: "bframe \<Rightarrow> BoxingTracker \<Rightarrow> error + (BoxingTracker \<times> bx_event list)" where
  "update fr s =
     (let now = b_now fr; s0 = clearVisible s in
      case processHands now (detections fr) s0 of
        Inl e \<Rightarrow> Inl e
      | Inr (s1, evs) \<Rightarrow>
          (let r = guardAndDodge now s1 in Inr (fst r, evs @ snd r)))"

fun runUpdates :: "bframe list \<Rightarrow> BoxingTracker \<Rightarrow> error + (BoxingTracker \<times> bx_event list list)" where
  "runUpdates [] s = Inr (s, [])"
| "runUpdates (fr # frs) s =
     (case update fr s of
        Inl e \<Rightarrow> Inl e
      | Inr (s1, evs) \<Rightarrow>
          (case runUpdates frs s1 of
             Inl e \<Rightarrow> Inl e
           | Inr (s2, evss) \<Rightarrow> Inr (s2, evs # evss)))"

text \<open>A frame all of whose landmark sets have the detector's 21 points.\<close>

definition wellFormed :: "bframe \<Rightarrow> bool" where
  "wellFormed fr = list_all (\<lambda>d. 21 \<le> length (landmarks d)) (detections fr)"

text \<open>How often an event of a kind fires on each frame of a run (\<open>None\<close> if it raised).\<close>

definition bxCounts :: "(bx_event \<Rightarrow> bool) \<Rightarrow> error + (BoxingTracker \<times> bx_event list list)
                         \<Rightarrow> nat list option" where
  "bxCounts P r =
     (case r of Inl e \<Rightarrow> None
      | Inr (s, evss) \<Rightarrow> Some (map (\<lambda>evs. length (filter P evs)) evss))"

definition isPunchOf :: "side \<Rightarrow> bx_event \<Rightarrow> bool" where
  "isPunchOf l e = (case e of OnPunch l' ty p x y d \<Rightarrow> l' = l | _ \<Rightarrow> False)"

definition isOnPunch :: "bx_event \<Rightarrow> bool" where
  "isOnPunch e = (case e of OnPunch l' ty p x y d \<Rightarrow> True | _ \<Rightarrow> False)"

definition isGuardChange :: "bx_event \<Rightarrow> bool" where
  "isGuardChange e = (case e of OnGuardChange b \<Rightarrow> True | _ \<Rightarrow> False)"

text \<open>The guard predicate of a tracker state: both hands visible and \<open>shouldGuard\<close>.\<close>

definition guardPredicate :: "BoxingTracker \<Rightarrow> bool" where
  "guardPredicate s =
     (h_visible (hands s SideLeft) \<and> h_visible (hands s SideRight)
      \<and> shouldGuard (hands s SideLeft) (hands s SideRight))"

text \<open>A punch of hand \<open>l\<close> fires on frame \<open>fr\<close>, processed in state \<open>s\<close>.\<close>

definition punchFiresOn :: "side \<Rightarrow> bframe \<Rightarrow> BoxingTracker \<Rightarrow> bool" where
  "punchFiresOn l fr s =
     (case update fr s of Inl e \<Rightarrow> False | Inr (s', evs) \<Rightarrow> filter (isPunchOf l) evs \<noteq> [])"

subsection \<open>Concrete frames for the boxing tracker\<close>

text \<open>
  A hand with the wrist at \<open>(x, y)\<close> and depth \<open>z\<close> and every other landmark at
  \<open>(x, y)\<close> (no finger curled), and a frame at time \<open>now\<close> showing one such hand
  in the middle of the picture, labelled \<open>'Right'\<close> by the detector (the tracker's
  left hand).
\<close>

definition handAt :: "real \<Rightarrow> real \<Rightarrow> real \<Rightarrow> landmark list" where
  "handAt x y z = (replicate 21 (lmAt x y))[0 := \<lparr> lm_x = x, lm_y = y, lm_z = z \<rparr>]"

definition seen :: "real \<Rightarrow> int \<Rightarrow> bframe" where
  "seen z now =
     \<lparr> detections = [\<lparr> handedness = ''Right'', landmarks = handAt (1/2) (7/10) z \<rparr>],
       b_now = now \<rparr>"

text \<open>
  The hand rests, moves one hundredth towards the camera between two frames, and rests
  again: three frames that start a reach at 1033 ms.
\<close>

definition reachStarts :: "bframe list" where
  "reachStarts = [seen 0 1000, seen 0 1016, seen (- (1/100)) 1033]"

text \<open>The same, with the next frame 401 ms after the start and the hand where it was.\<close>

definition stalledReach :: "bframe list" where
  "stalledReach = reachStarts @ [seen (- (1/100)) 1434]"

definition afterStart :: BoxingTracker where
  "afterStart =
     (case runUpdates reachStarts newBoxingTracker of
        Inl e \<Rightarrow> newBoxingTracker
      | Inr (s, evss) \<Rightarrow> s)"

text \<open>Both hands held high, near the centre and close together: the guard pose.\<close>

definition guardPose :: "int \<Rightarrow> bframe" where
  "guardPose now =
     \<lparr> detections = [\<lparr> handedness = ''Right'', landmarks = handAt (45/100) (3/10) 0 \<rparr>,
                      \<lparr> handedness = ''Left'', landmarks = handAt (55/100) (3/10) 0 \<rparr>],
       b_now = now \<rparr>"

section \<open>Properties of the filter\<close>

text \<open>
  C5. The first \<open>filter(rawValue, t)\<close> call on a freshly constructed filter, and on a
  filter that was reset after any history of calls, returns \<open>rawValue\<close> unchanged and
  records it (with the timestamp) as the previous state.
\<close>

theorem filter_first_call_returns_raw:
  "filterOE x t (newOneEuroFilter fr mc b dc)
     = (x, (newOneEuroFilter fr mc b dc)\<lparr> xPrev := Some x, tPrev := Some t, dxPrev := 0 \<rparr>)
   \<and> fst (filterOE x t (reset (filterAll calls f))) = x
   \<and> xPrev (snd (filterOE x t (reset (filterAll calls f)))) = Some x
   \<and> tPrev (snd (filterOE x t (reset (filterAll calls f)))) = Some t
   \<and> dxPrev (snd (filterOE x t (reset (filterAll calls f)))) = 0"
  by (simp add: filterOE_def newOneEuroFilter_def reset_def)

subsection \<open>A call on a filter with previous state\<close>

lemma specDt_pos: "0 < specDt t tp"
  by (simp add: specDt_def max_def)

lemma smoothingFactor_spec: "smoothingFactor c dt = specAlpha c dt"
  by (simp add: smoothingFactor_def specAlpha_def Let_def)

lemma filterOE_later:
  assumes "tPrev f = Some tp"
  shows "filterOE x t f =
     (let dt = specDt t tp;
          dxSmooth = specDxSmooth f x (toNumber (xPrev f)) dt;
          alpha = specAlpha (specCutoff f dxSmooth) dt;
          xSmooth = alpha * x + (1 - alpha) * toNumber (xPrev f)
      in (xSmooth, f\<lparr> freq := 1 / dt, xPrev := Some xSmooth, dxPrev := dxSmooth, tPrev := Some t \<rparr>))"
  using assms
  by (simp add: filterOE_def Let_def smoothingFactor_spec specDt_def specDxSmooth_def specCutoff_def)

text \<open>
  The two \<open>null\<close> fields are set and cleared together, so a filter with a previous
  timestamp has a previous value.
\<close>

lemma filterOE_keeps_pairing:
  assumes "(tPrev f = None) = (xPrev f = None)"
  shows "(tPrev (snd (filterOE x t f)) = None) = (xPrev (snd (filterOE x t f)) = None)"
  by (cases "tPrev f") (simp_all add: filterOE_def Let_def)

lemma filterAll_keeps_pairing:
  assumes "(tPrev f = None) = (xPrev f = None)"
  shows "(tPrev (filterAll cs f) = None) = (xPrev (filterAll cs f) = None)"
  using assms
proof (induction cs arbitrary: f)
  case Nil
  then show ?case by simp
next
  case (Cons c cs)
  obtain x t where c: "c = (x, t)" by (cases c)
  show ?case unfolding c filterAll.simps
    by (rule Cons.IH) (rule filterOE_keeps_pairing[OF Cons.prems])
qed

text \<open>
  C6. On a filter that has a previous timestamp \<open>tp\<close> and previous value \<open>xp\<close>,
  \<open>filter(x, t)\<close> returns \<open>alpha * x + (1 - alpha) * xp\<close>, where
  \<open>dt = max(1e-6, t - tp)\<close> (positive whatever the order of the timestamps),
  \<open>alpha\<close> is the smoothing coefficient of the cutoff
  \<open>minCutoff + beta * |dxSmooth|\<close>, and \<open>dxSmooth\<close> is the derivative estimate
  smoothed by the derivative cutoff; the call stores the result, \<open>dxSmooth\<close> and
  \<open>t\<close> as the previous state and leaves the tuning parameters alone.
\<close>

theorem filter_later_call_formula:
  assumes "tPrev f = Some tp" and "xPrev f = Some xp"
  shows "(let dt = specDt t tp;
              dxSmooth = specDxSmooth f x xp dt;
              alpha = specAlpha (specCutoff f dxSmooth) dt;
              xSmooth = alpha * x + (1 - alpha) * xp
          in 0 < dt \<and> dt = max (1 / 1000000) (t - tp)
             \<and> fst (filterOE x t f) = xSmooth
             \<and> xPrev (snd (filterOE x t f)) = Some xSmooth
             \<and> dxPrev (snd (filterOE x t f)) = dxSmooth
             \<and> tPrev (snd (filterOE x t f)) = Some t
             \<and> minCutoff (snd (filterOE x t f)) = minCutoff f
             \<and> beta (snd (filterOE x t f)) = beta f
             \<and> dCutoff (snd (filterOE x t f)) = dCutoff f)"
  using assms specDt_pos[of t tp]
  by (simp add: filterOE_later[OF assms(1)] Let_def toNumber_def specDt_def)

text \<open>An instance with a duplicate timestamp: \<open>dt\<close> is the epsilon.\<close>

theorem filter_later_call_formula_witness:
  "tPrev demoFilter = Some 5 \<and> xPrev demoFilter = Some 0
   \<and> fst (filterOE 1 5 demoFilter)
       = specAlpha (specCutoff demoFilter (specDxSmooth demoFilter 1 0 (1 / 1000000))) (1 / 1000000)
   \<and> tPrev (snd (filterOE 1 5 demoFilter)) = Some 5
   \<and> dxPrev (snd (filterOE 1 5 demoFilter)) = specDxSmooth demoFilter 1 0 (1 / 1000000)"
proof -
  have t: "tPrev demoFilter = Some 5" and x: "xPrev demoFilter = Some 0"
    by (simp_all add: demoFilter_def newOneEuroFilter_def)
  have d: "specDt 5 5 = 1 / 1000000" by (simp add: specDt_def)
  show ?thesis
    using filter_later_call_formula[OF t x, of 5 1] t x by (simp add: Let_def d)
qed

subsection \<open>The smoothing coefficient in exact arithmetic\<close>

lemma specAlpha_unit:
  assumes "0 < c" and "0 < dt"
  shows "0 < specAlpha c dt \<and> specAlpha c dt < 1"
proof -
  have r: "0 < 2 * pi * c * dt" using assms by simp
  then show ?thesis unfolding specAlpha_def by (simp add: field_simps)
qed

lemma blend_between:
  fixes a x xp :: real
  assumes "0 < a" "a < 1"
  shows "min xp x \<le> a * x + (1 - a) * xp \<and> a * x + (1 - a) * xp \<le> max xp x"
proof (cases "xp \<le> x")
  case True
  then have m: "min xp x = xp" "max xp x = x" by simp_all
  have lo: "0 \<le> a * (x - xp)" using assms True by simp
  have up: "0 \<le> (1 - a) * (x - xp)" using assms True by simp
  have "xp \<le> a * x + (1 - a) * xp" using lo by (simp add: algebra_simps)
  moreover have "a * x + (1 - a) * xp \<le> x" using up by (simp add: algebra_simps)
  ultimately show ?thesis unfolding m by simp
next
  case False
  then have m: "min xp x = x" "max xp x = xp" by simp_all
  have lo: "0 \<le> a * (xp - x)" using assms False by simp
  have up: "0 \<le> (1 - a) * (xp - x)" using assms False by simp
  have "x \<le> a * x + (1 - a) * xp" using up by (simp add: algebra_simps)
  moreover have "a * x + (1 - a) * xp \<le> xp" using lo by (simp add: algebra_simps)
  ultimately show ?thesis unfolding m by simp
qed

text \<open>
  In exact real arithmetic, on a filter with previous state, with \<open>minCutoff > 0\<close> and
  \<open>beta \<ge> 0\<close>: the smoothing coefficient of the call lies strictly between 0 and 1, and
  the returned value lies between the previous smoothed value and the raw input. The
  source computes in binary64, where each operation rounds (the sum
  \<open>a * x + (1 - a) * xPrev\<close> of a hand that stands still, \<open>x = xPrev\<close>, need not
  round to \<open>x\<close>); the reals of this model do not round, so this bound is one of the
  model and says nothing on the rounded result.
\<close>

lemma exact_filter_between:
  assumes "tPrev f = Some tp" and "xPrev f = Some xp"
      and "0 < minCutoff f" and "0 \<le> beta f"
  shows "(let dt = specDt t tp;
              alpha = specAlpha (specCutoff f (specDxSmooth f x xp dt)) dt
          in 0 < alpha \<and> alpha < 1
             \<and> fst (filterOE x t f) = alpha * x + (1 - alpha) * xp
             \<and> min xp x \<le> fst (filterOE x t f)
             \<and> fst (filterOE x t f) \<le> max xp x)"
proof -
  define dt where "dt = specDt t tp"
  define c where "c = specCutoff f (specDxSmooth f x xp dt)"
  have dt: "0 < dt" unfolding dt_def by (rule specDt_pos)
  have "0 \<le> beta f * \<bar>specDxSmooth f x xp dt\<bar>" using assms(4) by simp
  then have c: "0 < c" unfolding c_def specCutoff_def using assms(3) by linarith
  have a: "0 < specAlpha c dt \<and> specAlpha c dt < 1" using specAlpha_unit[OF c dt] .
  have r: "fst (filterOE x t f) = specAlpha c dt * x + (1 - specAlpha c dt) * xp"
    using assms(2) by (simp add: filterOE_later[OF assms(1)] Let_def toNumber_def dt_def c_def)
  from a have "min xp x \<le> specAlpha c dt * x + (1 - specAlpha c dt) * xp
      \<and> specAlpha c dt * x + (1 - specAlpha c dt) * xp \<le> max xp x"
    by (intro blend_between) simp_all
  with a r show ?thesis by (simp add: Let_def dt_def c_def)
qed

section \<open>Properties of the gesture classifiers\<close>

subsection \<open>Distances against a threshold\<close>

lemma hypot2_axis: "hypot2 0 b = \<bar>b\<bar>" "hypot2 a 0 = \<bar>a\<bar>"
  by (simp_all add: hypot2_def)

lemma hypot2_compare:
  assumes "0 \<le> c"
  shows "(hypot2 a b < c) = (a\<^sup>2 + b\<^sup>2 < c\<^sup>2)" and "(c < hypot2 a b) = (c\<^sup>2 < a\<^sup>2 + b\<^sup>2)"
proof -
  have c: "sqrt (c\<^sup>2) = c" using assms by simp
  show "(hypot2 a b < c) = (a\<^sup>2 + b\<^sup>2 < c\<^sup>2)"
    unfolding hypot2_def by (metis c real_sqrt_less_iff)
  show "(c < hypot2 a b) = (c\<^sup>2 < a\<^sup>2 + b\<^sup>2)"
    unfolding hypot2_def by (metis c real_sqrt_less_iff)
qed

lemma hypot3_compare:
  assumes "0 \<le> c"
  shows "(hypot3 a b d < c) = (a\<^sup>2 + b\<^sup>2 + d\<^sup>2 < c\<^sup>2)"
proof -
  have c: "sqrt (c\<^sup>2) = c" using assms by simp
  show ?thesis unfolding hypot3_def by (metis c real_sqrt_less_iff)
qed

subsection \<open>Two concrete hands\<close>

lemma palmWithPinch_length: "length palmWithPinch = 21"
  by (simp add: palmWithPinch_def)

lemma openPalm_length: "length openPalm = 21"
  by (simp add: openPalm_def palmWithPinch_def)

lemma openPalm_nth:
  "openPalm ! 4 = lmAt (1/5) (1/2)" "openPalm ! 5 = lmAt (1/2) (1/2)"
  "openPalm ! 6 = lmAt (1/2) (1/2)" "openPalm ! 8 = lmAt (1/2) (1/5)"
  "openPalm ! 9 = lmAt (1/2) (1/2)" "openPalm ! 10 = lmAt (1/2) (1/2)"
  "openPalm ! 12 = lmAt (1/2) (1/5)" "openPalm ! 13 = lmAt (1/2) (1/2)"
  "openPalm ! 14 = lmAt (1/2) (1/2)" "openPalm ! 16 = lmAt (1/2) (1/5)"
  "openPalm ! 17 = lmAt (1/2) (1/2)" "openPalm ! 18 = lmAt (1/2) (1/2)"
  "openPalm ! 20 = lmAt (1/2) (1/5)"
  by (simp_all add: openPalm_def palmWithPinch_def)

lemma detectGesture_palmWithPinch: "detectGesture palmWithPinch = Inr GPalm"
  by (simp add: detectGesture_def palmWithPinch_def lmAt_def hypot2_axis)

lemma specClassify_palmWithPinch: "specClassify palmWithPinch = GPinch"
  by (simp add: specClassify_def specPinch_def palmWithPinch_def lmAt_def hypot2_axis)

lemma analyzeGesture_openPalm: "analyzeGesture openPalm = Inr GOpen"
proof -
  have far: "\<not> hypot3 (- (3 / 10)) (3 / 10) 0 < 8 / 100"
    using hypot3_compare[of "8 / 100" "- (3 / 10)" "3 / 10" 0] by (simp add: power2_eq_square)
  have "\<not> hypot3 (lm_x (openPalm ! 4) - lm_x (openPalm ! 8)) (lm_y (openPalm ! 4) - lm_y (openPalm ! 8))
              (lm_z (openPalm ! 4) - lm_z (openPalm ! 8)) < 8 / 100"
    using far by (simp add: openPalm_nth lmAt_def)
  then show ?thesis
    by (simp add: analyzeGesture_def Let_def openPalm_length) (simp add: openPalm_nth lmAt_def)
qed

lemma specClassify_openPalm: "specClassify openPalm = GPalm"
proof -
  have far: "\<not> hypot2 (- (3 / 10)) (3 / 10) < 8 / 100"
    using hypot2_compare(1)[of "8 / 100" "- (3 / 10)" "3 / 10"] by (simp add: power2_eq_square)
  have p: "\<not> specPinch openPalm"
    using far by (simp add: specPinch_def openPalm_nth lmAt_def)
  have t: "specThumbSpread openPalm"
    by (simp add: specThumbSpread_def openPalm_nth lmAt_def hypot2_axis)
  have d: "\<not> specFingerDown openPalm 8" "\<not> specFingerDown openPalm 12"
          "\<not> specFingerDown openPalm 16" "\<not> specFingerDown openPalm 20"
    and u: "specFingerUp openPalm 8" "specFingerUp openPalm 12"
           "specFingerUp openPalm 16" "specFingerUp openPalm 20"
    by (simp_all add: specFingerDown_def specFingerUp_def openPalm_nth lmAt_def)
  show ?thesis
    by (simp add: specClassify_def p t d u specFist_def specPoint_def specPeace_def specPalmOpen_def)
qed

text \<open>
  C1 as stated fails on both classifiers of the repository. On an open palm whose thumb
  tip touches the index tip the pinch predicate holds, so the stated priority order
  gives \<open>pinch\<close>, while \<open>detectGesture\<close> returns \<open>palm\<close>: it does not test for a
  pinch at all. On an open palm with the thumb spread the stated order gives \<open>palm\<close>,
  while \<open>analyzeGesture\<close> returns \<open>open\<close>: it has no palm-open test and no
  \<open>none\<close>.
\<close>

theorem classifier_priority_counterexample:
  "detectGesture palmWithPinch = Inr GPalm \<and> specClassify palmWithPinch = GPinch
   \<and> analyzeGesture openPalm = Inr GOpen \<and> specClassify openPalm = GPalm"
  by (simp add: detectGesture_palmWithPinch specClassify_palmWithPinch analyzeGesture_openPalm
        specClassify_openPalm)

subsection \<open>What the classifiers return\<close>

lemma palm_point_exclusive: "\<not> (specPalmOpen lm \<and> specPoint lm)"
  by (auto simp: specPalmOpen_def specPoint_def specFingerUp_def specFingerDown_def)

lemma detectGesture_short: "length lm < 21 \<Longrightarrow> detectGesture lm = Inl TypeError"
  by (simp add: detectGesture_def)

lemma forge_exclusive:
  "\<not> (forgeFist lm \<and> forgePoint lm)" "\<not> (forgeFist lm \<and> forgePeace lm)"
  "\<not> (forgePoint lm \<and> forgePeace lm)"
  by (auto simp: forgeFist_def forgePoint_def forgePeace_def)

text \<open>
  C1, amended. On every landmark set of (at least) 21 points each classifier raises
  nothing and returns exactly one label. \<open>analyzeGesture\<close> tests pinch first, then
  fist, then point, then peace, and returns \<open>open\<close> otherwise (its tests compare the
  fingertips with the MCP joints and measure the pinch in three dimensions).
  \<open>detectGesture\<close> returns \<open>palm\<close> exactly when all four fingers are up and the
  thumb is spread, \<open>point\<close> exactly when the index is up and the other three fingers
  are down, and \<open>none\<close> otherwise; these two predicates exclude each other, and
  pinch, fist and peace are not labels of this classifier.
\<close>

theorem classifier_labels:
  assumes "21 \<le> length lm"
  shows "analyzeGesture lm =
           Inr (if forgePinch lm then GPinch
                else if forgeFist lm then GFist
                else if forgePoint lm then GPoint
                else if forgePeace lm then GPeace
                else GOpen)
     \<and> (detectGesture lm = Inr GPalm \<or> detectGesture lm = Inr GPoint \<or> detectGesture lm = Inr GNone)
     \<and> (detectGesture lm = Inr GPalm) = specPalmOpen lm
     \<and> (detectGesture lm = Inr GPoint) = specPoint lm
     \<and> (detectGesture lm = Inr GNone) = (\<not> specPalmOpen lm \<and> \<not> specPoint lm)"
proof -
  have a: "analyzeGesture lm =
           Inr (if forgePinch lm then GPinch
                else if forgeFist lm then GFist
                else if forgePoint lm then GPoint
                else if forgePeace lm then GPeace
                else GOpen)"
    using assms
    by (simp add: analyzeGesture_def Let_def forgePinch_def forgeFist_def forgePoint_def
          forgePeace_def)
  have d: "(detectGesture lm = Inr GPalm \<or> detectGesture lm = Inr GPoint \<or> detectGesture lm = Inr GNone)
     \<and> (detectGesture lm = Inr GPalm) = specPalmOpen lm
     \<and> (detectGesture lm = Inr GPoint) = specPoint lm
     \<and> (detectGesture lm = Inr GNone) = (\<not> specPalmOpen lm \<and> \<not> specPoint lm)"
    using assms
    by (auto simp: detectGesture_def Let_def specPalmOpen_def specPoint_def specFingerUp_def
          specFingerDown_def specThumbSpread_def)
  from a d show ?thesis by (rule conjI)
qed

theorem classifier_labels_witness:
  "21 \<le> length palmWithPinch \<and> detectGesture palmWithPinch = Inr GPalm
   \<and> specPalmOpen palmWithPinch \<and> \<not> specPoint palmWithPinch
   \<and> forgePinch palmWithPinch \<and> analyzeGesture palmWithPinch = Inr GPinch"
proof -
  have p: "forgePinch palmWithPinch"
    by (simp add: forgePinch_def palmWithPinch_def lmAt_def hypot3_def)
  show ?thesis
    using classifier_labels[of palmWithPinch] detectGesture_palmWithPinch palmWithPinch_length p
    by simp
qed

section \<open>Properties of the cursor tracker\<close>

subsection \<open>One frame, seen from the pinch debouncer\<close>

lemma pinchBlock_consts:
  "PINCH_THRESHOLD (fst (pinchBlock p now s)) = PINCH_THRESHOLD s"
  "PINCH_HOLD_MS (fst (pinchBlock p now s)) = PINCH_HOLD_MS s"
  by (simp_all add: pinchBlock_def)

lemma pinchBlock_step:
  "(pinchView (fst (pinchBlock p now s)), pinchCount (snd (pinchBlock p now s)))
     = pinchStep (PINCH_HOLD_MS s) (Some (p, now)) (pinchView s)"
  by (simp add: pinchBlock_def pinchStep_def pinchView_def pinchCount_def isOnPinch_def
        isOnRelease_def)

lemma otherHand_pinch:
  "cur_pinching (otherHand l s) = cur_pinching s"
  "pinchStartTime (otherHand l s) = pinchStartTime s"
  "PINCH_THRESHOLD (otherHand l s) = PINCH_THRESHOLD s"
  "PINCH_HOLD_MS (otherHand l s) = PINCH_HOLD_MS s"
  by (simp_all add: otherHand_def Let_def)

lemma handLoop_others:
  assumes "list_all (\<lambda>h. 21 \<le> length h) ls"
  shows "\<exists>s'. handLoop (Suc i) ls fr s = Inr (s', [])
           \<and> cur_pinching s' = cur_pinching s \<and> pinchStartTime s' = pinchStartTime s
           \<and> PINCH_THRESHOLD s' = PINCH_THRESHOLD s \<and> PINCH_HOLD_MS s' = PINCH_HOLD_MS s"
  using assms
proof (induction ls arbitrary: i s)
  case Nil
  then show ?case by simp
next
  case (Cons l ls)
  from Cons.prems have l: "\<not> length l < 21" and ls: "list_all (\<lambda>h. 21 \<le> length h) ls"
    by simp_all
  from Cons.IH[OF ls, of "Suc i" "otherHand l s"] obtain s' where
    "handLoop (Suc (Suc i)) ls fr (otherHand l s) = Inr (s', [])"
    "cur_pinching s' = cur_pinching s" "pinchStartTime s' = pinchStartTime s"
    "PINCH_THRESHOLD s' = PINCH_THRESHOLD s" "PINCH_HOLD_MS s' = PINCH_HOLD_MS s"
    by (auto simp: otherHand_pinch)
  then show ?case using l by simp
qed

text \<open>
  The state that the pinch block of the first hand starts from: the tracker with the
  filtered position and the pose flags of this frame stored.
\<close>

lemma primaryHand_pinch:
  "\<exists>s1. cur_pinching s1 = cur_pinching s \<and> pinchStartTime s1 = pinchStartTime s
      \<and> PINCH_HOLD_MS s1 = PINCH_HOLD_MS s \<and> PINCH_THRESHOLD s1 = PINCH_THRESHOLD s
      \<and> fst (primaryHand l fr s)
          = fst (pinchBlock (isPinching (PINCH_THRESHOLD s) (l ! 4) (l ! 8)) (dateNow fr) s1)
      \<and> filter isOnPinch (snd (primaryHand l fr s))
          = filter isOnPinch
              (snd (pinchBlock (isPinching (PINCH_THRESHOLD s) (l ! 4) (l ! 8)) (dateNow fr) s1))
      \<and> filter isOnRelease (snd (primaryHand l fr s))
          = filter isOnRelease
              (snd (pinchBlock (isPinching (PINCH_THRESHOLD s) (l ! 4) (l ! 8)) (dateNow fr) s1))"
  unfolding primaryHand_def Let_def
  by (rule exI[where x = "s\<lparr> filters_x := snd (filterOE (1 - lm_x (l ! 8)) (perfNow fr / 1000) (filters_x s)),
          filters_y := snd (filterOE (lm_y (l ! 8)) (perfNow fr / 1000) (filters_y s)),
          cur_x := fst (filterOE (1 - lm_x (l ! 8)) (perfNow fr / 1000) (filters_x s)),
          cur_y := fst (filterOE (lm_y (l ! 8)) (perfNow fr / 1000) (filters_y s)),
          cur_screenX := fst (filterOE (1 - lm_x (l ! 8)) (perfNow fr / 1000) (filters_x s)) * innerWidth fr,
          cur_screenY := fst (filterOE (lm_y (l ! 8)) (perfNow fr / 1000) (filters_y s)) * innerHeight fr,
          cur_visible := True,
          cur_pointing := isPointing l,
          cur_fistClosed := isFistClosedHC l,
          cur_palmOpen := isPalmOpen l \<rparr>"])
     (simp add: isOnPinch_def isOnRelease_def)

lemma onResults_present:
  assumes "handPresent fr"
  shows "\<exists>s' evs. onResults fr s = Inr (s', evs)
           \<and> PINCH_THRESHOLD s' = PINCH_THRESHOLD s \<and> PINCH_HOLD_MS s' = PINCH_HOLD_MS s
           \<and> (pinchView s', pinchCount evs)
               = pinchStep (PINCH_HOLD_MS s) (frameView (PINCH_THRESHOLD s) fr) (pinchView s)"
proof -
  from assms obtain l ls where m: "multiHandLandmarks fr = Some (l # ls)"
    and l: "\<not> length l < 21" and ls: "list_all (\<lambda>h. 21 \<le> length h) ls"
    by (auto simp: handPresent_def split: option.splits list.splits)
  define p where "p = isPinching (PINCH_THRESHOLD s) (l ! 4) (l ! 8)"
  have fp: "frameView (PINCH_THRESHOLD s) fr = Some (p, dateNow fr)"
    using assms by (simp add: frameView_def framePinching_def m p_def)
  from primaryHand_pinch[of s l fr] obtain s1 where
    s1: "cur_pinching s1 = cur_pinching s" "pinchStartTime s1 = pinchStartTime s"
        "PINCH_HOLD_MS s1 = PINCH_HOLD_MS s" "PINCH_THRESHOLD s1 = PINCH_THRESHOLD s"
    and ph: "fst (primaryHand l fr s) = fst (pinchBlock p (dateNow fr) s1)"
            "filter isOnPinch (snd (primaryHand l fr s))
               = filter isOnPinch (snd (pinchBlock p (dateNow fr) s1))"
            "filter isOnRelease (snd (primaryHand l fr s))
               = filter isOnRelease (snd (pinchBlock p (dateNow fr) s1))"
    unfolding p_def by blast
  define sa where "sa = fst (primaryHand l fr s)"
  from handLoop_others[OF ls, of 0 fr sa] obtain s' where
    hl: "handLoop (Suc 0) ls fr sa = Inr (s', [])"
    and keep: "cur_pinching s' = cur_pinching sa" "pinchStartTime s' = pinchStartTime sa"
        "PINCH_THRESHOLD s' = PINCH_THRESHOLD sa" "PINCH_HOLD_MS s' = PINCH_HOLD_MS sa"
    by blast
  have run: "onResults fr s = Inr (s', snd (primaryHand l fr s))"
    using l hl by (simp add: onResults_def m sa_def)
  have v: "pinchView s' = pinchView (fst (pinchBlock p (dateNow fr) s1))"
    using keep ph(1) by (simp add: pinchView_def sa_def)
  have c: "pinchCount (snd (primaryHand l fr s)) = pinchCount (snd (pinchBlock p (dateNow fr) s1))"
    using ph(2,3) by (simp add: pinchCount_def)
  have vs: "pinchView s1 = pinchView s" using s1 by (simp add: pinchView_def)
  have "(pinchView s', pinchCount (snd (primaryHand l fr s)))
          = pinchStep (PINCH_HOLD_MS s) (Some (p, dateNow fr)) (pinchView s)"
    using pinchBlock_step[of p "dateNow fr" s1] v c vs s1(3) by simp
  moreover have "PINCH_THRESHOLD s' = PINCH_THRESHOLD s" "PINCH_HOLD_MS s' = PINCH_HOLD_MS s"
    using keep(3,4) ph(1) s1(3,4) by (simp_all add: sa_def pinchBlock_consts)
  ultimately show ?thesis using run fp by simp
qed

lemma onResults_absent:
  assumes "handAbsent fr"
  shows "onResults fr s = Inr (handLost s, [])"
  using assms by (auto simp: handAbsent_def onResults_def)

lemma frameView_absent: "handAbsent fr \<Longrightarrow> frameView thr fr = None"
  by (auto simp: handAbsent_def frameView_def handPresent_def)

lemma onResults_view:
  assumes "handPresent fr \<or> handAbsent fr"
  shows "\<exists>s' evs. onResults fr s = Inr (s', evs)
           \<and> PINCH_THRESHOLD s' = PINCH_THRESHOLD s \<and> PINCH_HOLD_MS s' = PINCH_HOLD_MS s
           \<and> (pinchView s', pinchCount evs)
               = pinchStep (PINCH_HOLD_MS s) (frameView (PINCH_THRESHOLD s) fr) (pinchView s)"
proof (cases "handPresent fr")
  case True
  then show ?thesis by (rule onResults_present)
next
  case False
  with assms have a: "handAbsent fr" by simp
  show ?thesis
    by (simp add: onResults_absent[OF a] frameView_absent[OF a] pinchStep_def handLost_def
          pinchView_def pinchCount_def)
qed

subsection \<open>A run of frames, seen from the pinch debouncer\<close>

lemma runFrames_view:
  assumes "list_all (\<lambda>fr. handPresent fr \<or> handAbsent fr) frs"
  shows "\<exists>s' evss. runFrames frs s = Inr (s', evss)
           \<and> PINCH_THRESHOLD s' = PINCH_THRESHOLD s \<and> PINCH_HOLD_MS s' = PINCH_HOLD_MS s
           \<and> (pinchView s', map pinchCount evss)
               = pinchRun (PINCH_HOLD_MS s) (map (frameView (PINCH_THRESHOLD s)) frs) (pinchView s)"
  using assms
proof (induction frs arbitrary: s)
  case Nil
  then show ?case by simp
next
  case (Cons fr frs)
  from Cons.prems have h: "handPresent fr \<or> handAbsent fr"
    and hs: "list_all (\<lambda>fr. handPresent fr \<or> handAbsent fr) frs" by simp_all
  from onResults_view[OF h, of s] obtain s1 evs where
    one: "onResults fr s = Inr (s1, evs)"
    and k1: "PINCH_THRESHOLD s1 = PINCH_THRESHOLD s" "PINCH_HOLD_MS s1 = PINCH_HOLD_MS s"
    and st: "(pinchView s1, pinchCount evs)
       = pinchStep (PINCH_HOLD_MS s) (frameView (PINCH_THRESHOLD s) fr) (pinchView s)"
    by blast
  from Cons.IH[OF hs, of s1] obtain s2 evss where
    rest: "runFrames frs s1 = Inr (s2, evss)"
    and k2: "PINCH_THRESHOLD s2 = PINCH_THRESHOLD s1" "PINCH_HOLD_MS s2 = PINCH_HOLD_MS s1"
    and rn: "(pinchView s2, map pinchCount evss)
       = pinchRun (PINCH_HOLD_MS s1) (map (frameView (PINCH_THRESHOLD s1)) frs) (pinchView s1)"
    by blast
  have "runFrames (fr # frs) s = Inr (s2, evs # evss)" using one rest by simp
  moreover have "(pinchView s2, map pinchCount (evs # evss))
       = pinchRun (PINCH_HOLD_MS s) (map (frameView (PINCH_THRESHOLD s)) (fr # frs)) (pinchView s)"
    using st[symmetric] rn[symmetric] k1 by (simp add: Let_def)
  ultimately show ?case using k1 k2 by simp
qed

lemma eventCounts_pinch:
  "eventCounts isOnPinch (Inr (s, evss)) = Some (map fst (map pinchCount evss))"
  "eventCounts isOnRelease (Inr (s, evss)) = Some (map snd (map pinchCount evss))"
  by (simp_all add: eventCounts_def pinchCount_def)

subsection \<open>The debouncer on its own state\<close>

lemma pinchRun_append:
  "pinchRun hold (a @ b) v =
     (fst (pinchRun hold b (fst (pinchRun hold a v))),
      snd (pinchRun hold a v) @ snd (pinchRun hold b (fst (pinchRun hold a v))))"
  by (induction a arbitrary: v) (simp_all add: Let_def)

lemma pinchRun_wait:
  assumes "st \<noteq> 0" and "\<forall>pn \<in> set fs. fst pn \<and> snd pn - st \<le> hold"
  shows "pinchRun hold (map Some fs) (False, st) = ((False, st), replicate (length fs) (0, 0))"
  using assms(2) by (induction fs) (simp_all add: Let_def pinchStep_def assms(1) split_def)

lemma pinchRun_held:
  assumes "\<forall>pn \<in> set fs. fst pn"
  shows "pinchRun hold (map Some fs) (True, st) = ((True, st), replicate (length fs) (0, 0))"
  using assms by (induction fs) (simp_all add: Let_def pinchStep_def split_def)

lemma pinchRun_short_hold:
  assumes "t0 \<noteq> 0" and "\<forall>pn \<in> set pre. fst pn \<and> snd pn - t0 \<le> hold"
  shows "pinchRun hold (Some (True, t0) # map Some pre @ [Some (False, tr)]) (False, 0)
           = ((False, 0), replicate (length pre + 2) (0, 0))"
  using assms
  by (simp add: Let_def pinchStep_def pinchRun_append pinchRun_wait replicate_append_same)

lemma pinchRun_long_hold:
  assumes "t0 \<noteq> 0" and "\<forall>pn \<in> set pre. fst pn \<and> snd pn - t0 \<le> hold"
      and "tf - t0 > hold" and "\<forall>pn \<in> set post. fst pn"
  shows "pinchRun hold (Some (True, t0) # map Some pre @ Some (True, tf) # map Some post
                         @ [Some (False, tr)]) (False, 0)
           = ((False, 0), replicate (length pre + 1) (0, 0) @ [(1, 0)]
                           @ replicate (length post) (0, 0) @ [(0, 1)])"
  using assms
  by (simp add: Let_def pinchStep_def pinchRun_append pinchRun_wait pinchRun_held)

subsection \<open>Concrete frames\<close>

lemma isPinching_iff:
  assumes "0 \<le> thr"
  shows "isPinching thr a b = ((lm_x a - lm_x b)\<^sup>2 + (lm_y a - lm_y b)\<^sup>2 < thr\<^sup>2)"
proof -
  have "sqrt (thr\<^sup>2) = thr" using assms by simp
  then show ?thesis
    unfolding isPinching_def Let_def by (metis real_sqrt_less_iff)
qed

lemma frameAt_present:
  "handPresent (frameAt [palmWithPinch] t)" "handPresent (frameAt [openPalm] t)"
  "handPresent (frameAt [openPalm, openPalm] t)" "handAbsent (frameAt [] t)"
  "\<not> handPresent (frameAt [] t)"
  by (simp_all add: handPresent_def handAbsent_def frameAt_def palmWithPinch_length openPalm_length)

lemma frameAt_dateNow: "dateNow (frameAt hs t) = t"
  by (simp add: frameAt_def)

lemma newHandCursor_threshold: "PINCH_THRESHOLD (newHandCursor None w h) = 8 / 100"
  by (simp add: newHandCursor_def)

lemma frameAt_pinching:
  "framePinching (PINCH_THRESHOLD (newHandCursor None w h)) (frameAt [palmWithPinch] t)"
  "\<not> framePinching (PINCH_THRESHOLD (newHandCursor None w h)) (frameAt [openPalm] t)"
  "\<not> framePinching (PINCH_THRESHOLD (newHandCursor None w h)) (frameAt [] t)"
  unfolding newHandCursor_threshold
  by (simp_all add: framePinching_def frameAt_def isPinching_iff palmWithPinch_def openPalm_def
        lmAt_def power2_eq_square)

lemma newHandCursor_pinch:
  "PINCH_HOLD_MS (newHandCursor None w h) = 60"
  "pinchView (newHandCursor None w h) = (False, 0)"
  "\<not> cur_pinching (newHandCursor None w h)"
  "pinchStartTime (newHandCursor None w h) = 0"
  by (simp_all add: newHandCursor_def pinchView_def)

subsection \<open>Runs with a hand on every frame\<close>

text \<open>
  On a run of frames in each of which a hand is detected, starting with no pinch
  pending, the pinch block debounces: while the pinch predicate has held for at most the hold time since its
  first frame, no \<open>onPinch\<close> fires, and if the predicate then becomes false nothing
  fires at all; on the first frame later than the hold time after the first frame
  \<open>onPinch\<close> fires once, no further \<open>onPinch\<close> fires while the predicate keeps
  holding, and \<open>onRelease\<close> fires once, on the first frame on which the predicate is
  false. Either way the debouncer is idle again afterwards. (Times are the
  \<open>Date.now()\<close> values at the frames; the value at the first frame is not 0, which
  the source reads as "no pinch pending".)
\<close>

lemma debounce_on_present_frames:
  assumes idle: "\<not> cur_pinching s" "pinchStartTime s = 0"
      and present: "list_all handPresent (f0 # pre @ f # post @ [r])"
      and pinching: "list_all (framePinching (PINCH_THRESHOLD s)) (f0 # pre @ f # post)"
      and released: "\<not> framePinching (PINCH_THRESHOLD s) r"
      and clock: "dateNow f0 \<noteq> 0"
      and short: "list_all (\<lambda>g. dateNow g - dateNow f0 \<le> PINCH_HOLD_MS s) pre"
      and long: "dateNow f - dateNow f0 > PINCH_HOLD_MS s"
  shows "eventCounts isOnPinch (runFrames (f0 # pre @ [r]) s) = Some (replicate (length pre + 2) 0)
       \<and> eventCounts isOnRelease (runFrames (f0 # pre @ [r]) s) = Some (replicate (length pre + 2) 0)
       \<and> endsIdle (runFrames (f0 # pre @ [r]) s)
       \<and> eventCounts isOnPinch (runFrames (f0 # pre @ f # post @ [r]) s)
           = Some (replicate (length pre + 1) 0 @ [1] @ replicate (length post) 0 @ [0])
       \<and> eventCounts isOnRelease (runFrames (f0 # pre @ f # post @ [r]) s)
           = Some (replicate (length pre + 1) 0 @ [0] @ replicate (length post) 0 @ [1])
       \<and> endsIdle (runFrames (f0 # pre @ f # post @ [r]) s)"
proof -
  let ?thr = "PINCH_THRESHOLD s" and ?hold = "PINCH_HOLD_MS s"
  let ?v = "\<lambda>fr. (framePinching ?thr fr, dateNow fr)"
  have v0: "pinchView s = (False, 0)" using idle by (simp add: pinchView_def)
  have pre_v: "\<forall>pn \<in> set (map ?v pre). fst pn \<and> snd pn - dateNow f0 \<le> ?hold"
    using pinching short by (auto simp: list_all_iff)
  have post_v: "\<forall>pn \<in> set (map ?v post). fst pn"
    using pinching by (auto simp: list_all_iff)
  have views: "map (frameView ?thr) pre = map Some (map ?v pre)"
              "map (frameView ?thr) post = map Some (map ?v post)"
    using present by (auto simp: frameView_def list_all_iff)
  have f0_v: "frameView ?thr f0 = Some (True, dateNow f0)"
    and f_v: "frameView ?thr f = Some (True, dateNow f)"
    and r_v: "frameView ?thr r = Some (False, dateNow r)"
    using pinching released present by (simp_all add: frameView_def)
  have p1: "list_all (\<lambda>fr. handPresent fr \<or> handAbsent fr) (f0 # pre @ [r])"
    and p2: "list_all (\<lambda>fr. handPresent fr \<or> handAbsent fr) (f0 # pre @ f # post @ [r])"
    using present by (auto simp: list_all_iff)
  from runFrames_view[OF p1, of s] obtain s1 evss1 where
    r1: "runFrames (f0 # pre @ [r]) s = Inr (s1, evss1)"
    and a1: "(pinchView s1, map pinchCount evss1)
       = pinchRun ?hold (map (frameView ?thr) (f0 # pre @ [r])) (pinchView s)"
    by blast
  have a1': "(pinchView s1, map pinchCount evss1) = ((False, 0), replicate (length pre + 2) (0, 0))"
    using a1 pinchRun_short_hold[OF clock pre_v, of "dateNow r"]
    by (simp add: v0 f0_v r_v views)
  from runFrames_view[OF p2, of s] obtain s2 evss2 where
    r2: "runFrames (f0 # pre @ f # post @ [r]) s = Inr (s2, evss2)"
    and a2: "(pinchView s2, map pinchCount evss2)
       = pinchRun ?hold (map (frameView ?thr) (f0 # pre @ f # post @ [r])) (pinchView s)"
    by blast
  have a2': "(pinchView s2, map pinchCount evss2)
       = ((False, 0), replicate (length pre + 1) (0, 0) @ [(1, 0)]
                       @ replicate (length post) (0, 0) @ [(0, 1)])"
    using a2 pinchRun_long_hold[OF clock pre_v long post_v, of "dateNow r"]
    by (simp add: v0 f0_v r_v f_v views)
  from a1' have c1: "map pinchCount evss1 = replicate (length pre + 2) (0, 0)"
    and i1: "pinchView s1 = (False, 0)" by simp_all
  from a2' have c2: "map pinchCount evss2
       = replicate (length pre + 1) (0, 0) @ [(1, 0)] @ replicate (length post) (0, 0) @ [(0, 1)]"
    and i2: "pinchView s2 = (False, 0)" by simp_all
  show ?thesis
    unfolding r1 r2 eventCounts_pinch c1 c2
    using i1 i2 by (simp add: endsIdle_def pinchView_def)
qed

text \<open>
  An instance at the constructor's values (threshold 0.08, hold time 60 ms): the pinch
  is seen at 1000, 1030, 1061 and 1090 ms and released at 1120 ms.
\<close>

lemma debounce_on_present_frames_instance:
  "eventCounts isOnPinch
     (runFrames [frameAt [palmWithPinch] 1000, frameAt [palmWithPinch] 1030, frameAt [openPalm] 1120]
        (newHandCursor None 1280 720)) = Some [0, 0, 0]
   \<and> eventCounts isOnPinch
     (runFrames [frameAt [palmWithPinch] 1000, frameAt [palmWithPinch] 1030,
                 frameAt [palmWithPinch] 1061, frameAt [palmWithPinch] 1090,
                 frameAt [openPalm] 1120]
        (newHandCursor None 1280 720)) = Some [0, 0, 1, 0, 0]
   \<and> eventCounts isOnRelease
     (runFrames [frameAt [palmWithPinch] 1000, frameAt [palmWithPinch] 1030,
                 frameAt [palmWithPinch] 1061, frameAt [palmWithPinch] 1090,
                 frameAt [openPalm] 1120]
        (newHandCursor None 1280 720)) = Some [0, 0, 0, 0, 1]"
  using debounce_on_present_frames[of "newHandCursor None 1280 720"
          "frameAt [palmWithPinch] 1000" "[frameAt [palmWithPinch] 1030]"
          "frameAt [palmWithPinch] 1061" "[frameAt [palmWithPinch] 1090]"
          "frameAt [openPalm] 1120"]
  by (simp add: newHandCursor_pinch frameAt_present frameAt_pinching frameAt_dateNow)

subsection \<open>Runs in which the hand is lost\<close>

lemma runFrames_then_absent:
  assumes "handAbsent fr" and "runFrames frs s = Inr (s1, evss)"
  shows "runFrames (frs @ [fr]) s = Inr (handLost s1, evss @ [[]])"
  using assms(2)
proof (induction frs arbitrary: s evss)
  case Nil
  then show ?case by (simp add: onResults_absent[OF assms(1)])
next
  case (Cons g gs)
  then show ?case by (auto split: sum.splits prod.splits)
qed

text \<open>
  A hand that is lost while the cursor is pinching: the pinch is held from 1000 ms,
  \<open>onPinch\<close> fires at 1100 ms, and no hand is seen at 1116 ms. The frame without a hand
  fires no \<open>onRelease\<close> and leaves the cursor invisible and still pinching.
\<close>

lemma hand_lost_while_pinching:
  "eventCounts isOnPinch
     (runFrames [frameAt [palmWithPinch] 1000, frameAt [palmWithPinch] 1100, frameAt [] 1116]
        (newHandCursor None 1280 720)) = Some [0, 1, 0]
   \<and> eventCounts isOnRelease
     (runFrames [frameAt [palmWithPinch] 1000, frameAt [palmWithPinch] 1100, frameAt [] 1116]
        (newHandCursor None 1280 720)) = Some [0, 0, 0]
   \<and> map_sum id (\<lambda>r. (cur_visible (fst r), cur_pinching (fst r)))
     (runFrames [frameAt [palmWithPinch] 1000, frameAt [palmWithPinch] 1100, frameAt [] 1116]
        (newHandCursor None 1280 720)) = Inr (False, True)"
proof -
  let ?s = "newHandCursor None 1280 720"
  let ?held = "[frameAt [palmWithPinch] 1000, frameAt [palmWithPinch] 1100]"
  have ok: "list_all (\<lambda>fr. handPresent fr \<or> handAbsent fr) ?held"
    by (simp add: frameAt_present)
  from runFrames_view[OF ok, of ?s] obtain s1 evss where
    r: "runFrames ?held ?s = Inr (s1, evss)"
    and v: "(pinchView s1, map pinchCount evss)
       = pinchRun (PINCH_HOLD_MS ?s) (map (frameView (PINCH_THRESHOLD ?s)) ?held) (pinchView ?s)"
    by blast
  have fv: "map (frameView (PINCH_THRESHOLD ?s)) ?held = [Some (True, 1000), Some (True, 1100)]"
    by (simp add: frameView_def frameAt_present frameAt_pinching frameAt_dateNow)
  have c: "map pinchCount evss = [(0, 0), (1, 0)]" and p: "pinchView s1 = (True, 0)"
    using v[unfolded fv] by (simp_all add: newHandCursor_pinch pinchStep_def Let_def)
  have all: "runFrames (?held @ [frameAt [] 1116]) ?s = Inr (handLost s1, evss @ [[]])"
    using frameAt_present(4) r by (rule runFrames_then_absent)
  have n: "pinchCount [] = (0, 0)" by (simp add: pinchCount_def)
  have "cur_pinching (handLost s1)" "\<not> cur_visible (handLost s1)"
    using p by (simp_all add: handLost_def pinchView_def)
  then show ?thesis
    using all by (simp add: eventCounts_pinch c n)
qed

text \<open>
  C2 at a concrete run. From a fresh tracker the pinch predicate holds on the frame at
  1000 ms, no hand is seen at 1016 ms and at 6000 ms, and the predicate holds again on
  the frame at 11000 ms. Each maximal run of frames on which the predicate holds spans
  0 ms, less than the hold time of 60 ms, yet \<open>onPinch\<close> fires on the last frame: a
  frame without a hand returns before the pinch block and leaves the timer of the first
  frame running.
\<close>

theorem pinch_fires_without_hold:
  "eventCounts isOnPinch (runFrames lostAndFound (newHandCursor None 1280 720)) = Some [0, 0, 0, 1]
   \<and> holdSpans (map (\<lambda>fr. (framePinching (PINCH_THRESHOLD (newHandCursor None 1280 720)) fr,
                           dateNow fr)) lostAndFound) None = [0, 0]"
proof -
  let ?s = "newHandCursor None 1280 720"
  have ok: "list_all (\<lambda>fr. handPresent fr \<or> handAbsent fr) lostAndFound"
    by (simp add: lostAndFound_def frameAt_present)
  from runFrames_view[OF ok, of ?s] obtain s' evss where
    r: "runFrames lostAndFound ?s = Inr (s', evss)"
    and v: "(pinchView s', map pinchCount evss)
       = pinchRun (PINCH_HOLD_MS ?s) (map (frameView (PINCH_THRESHOLD ?s)) lostAndFound) (pinchView ?s)"
    by blast
  have fv: "map (frameView (PINCH_THRESHOLD ?s)) lostAndFound
              = [Some (True, 1000), None, None, Some (True, 11000)]"
    by (simp add: lostAndFound_def frameView_def frameAt_present frameAt_pinching frameAt_dateNow
          frameView_absent)
  have "map pinchCount evss = [(0, 0), (0, 0), (0, 0), (1, 0)]"
    using v by (simp add: newHandCursor_pinch fv pinchStep_def Let_def)
  then have "eventCounts isOnPinch (runFrames lostAndFound ?s) = Some [0, 0, 0, 1]"
    by (simp add: r eventCounts_pinch)
  moreover have "holdSpans (map (\<lambda>fr. (framePinching (PINCH_THRESHOLD ?s) fr, dateNow fr))
                                lostAndFound) None = [0, 0]"
    by (simp add: lostAndFound_def frameAt_pinching frameAt_dateNow)
  ultimately show ?thesis by simp
qed

subsection \<open>Visibility and the filters when hands leave\<close>

text \<open>
  A frame without any hand marks both slots invisible and resets both filters of the
  primary hand; the hand's next appearance is then stored unsmoothed, at its raw
  (mirrored) index fingertip position.
\<close>

lemma no_hand_frame_resets:
  assumes "handAbsent fr"
  shows "\<exists>s'. onResults fr s = Inr (s', [])
           \<and> \<not> cur_visible s' \<and> \<not> sh_visible s'
           \<and> tPrev (filters_x s') = None \<and> xPrev (filters_x s') = None
           \<and> tPrev (filters_y s') = None \<and> xPrev (filters_y s') = None"
  by (simp add: onResults_absent[OF assms] handLost_def reset_def)

lemma pinchBlock_keeps:
  "sh_visible (fst (pinchBlock p now s)) = sh_visible s"
  "cur_visible (fst (pinchBlock p now s)) = cur_visible s"
  "cur_x (fst (pinchBlock p now s)) = cur_x s"
  "cur_y (fst (pinchBlock p now s)) = cur_y s"
  by (simp_all add: pinchBlock_def)

lemma primaryHand_slots:
  "sh_visible (fst (primaryHand l fr s)) = sh_visible s"
  "cur_visible (fst (primaryHand l fr s))"
  "cur_x (fst (primaryHand l fr s)) = fst (filterOE (1 - lm_x (l ! 8)) (perfNow fr / 1000) (filters_x s))"
  "cur_y (fst (primaryHand l fr s)) = fst (filterOE (lm_y (l ! 8)) (perfNow fr / 1000) (filters_y s))"
  by (simp_all add: primaryHand_def Let_def pinchBlock_keeps)

lemma onResults_one_hand:
  assumes "multiHandLandmarks fr = Some [l]" and "21 \<le> length l"
  shows "onResults fr s = Inr (fst (primaryHand l fr s), snd (primaryHand l fr s))"
  using assms by (simp add: onResults_def)

lemma onResults_two_hands:
  assumes "multiHandLandmarks fr = Some [l, l2]" and "21 \<le> length l" and "21 \<le> length l2"
  shows "onResults fr s
           = Inr (otherHand l2 (fst (primaryHand l fr s)), snd (primaryHand l fr s))"
  using assms by (simp add: onResults_def Let_def)

lemma reappearance_is_raw:
  assumes "handAbsent fr" and "multiHandLandmarks fr2 = Some [l]" and "21 \<le> length l"
  shows "\<exists>s1 s2 evs. onResults fr s = Inr (s1, []) \<and> onResults fr2 s1 = Inr (s2, evs)
           \<and> cur_visible s2 \<and> cur_x s2 = 1 - lm_x (l ! 8) \<and> cur_y s2 = lm_y (l ! 8)"
proof -
  let ?s2 = "fst (primaryHand l fr2 (handLost s))"
  have 1: "onResults fr s = Inr (handLost s, [])" by (rule onResults_absent[OF assms(1)])
  have 2: "onResults fr2 (handLost s) = Inr (?s2, snd (primaryHand l fr2 (handLost s)))"
    by (rule onResults_one_hand[OF assms(2,3)])
  have 3: "cur_visible ?s2" "cur_x ?s2 = 1 - lm_x (l ! 8)" "cur_y ?s2 = lm_y (l ! 8)"
    by (simp_all add: primaryHand_slots handLost_def reset_def filterOE_def)
  from 1 2 3 show ?thesis by blast
qed

text \<open>
  C7 on the second slot. A frame with two hands is followed by a frame with one hand:
  the hand of the second slot is absent from the second frame, and the slot is still
  marked visible after it. The loop writes the second slot only for a hand it sees, and
  only the branch for a frame without any hand clears the flag.
\<close>

theorem second_hand_stays_visible:
  "map_sum id (\<lambda>r. sh_visible (fst r)) (runFrames secondHandLeaves (newHandCursor None 1280 720))
     = Inr True
   \<and> map (\<lambda>fr. map_option length (multiHandLandmarks fr)) secondHandLeaves = [Some 2, Some 1]"
proof -
  let ?s = "newHandCursor None 1280 720"
  let ?a = "frameAt [openPalm, openPalm] 1000" and ?b = "frameAt [openPalm] 1016"
  define s1 where "s1 = otherHand openPalm (fst (primaryHand openPalm ?a ?s))"
  have a: "onResults ?a ?s = Inr (s1, snd (primaryHand openPalm ?a ?s))"
    unfolding s1_def by (rule onResults_two_hands) (simp_all add: frameAt_def openPalm_length)
  have b: "onResults ?b s1 = Inr (fst (primaryHand openPalm ?b s1), snd (primaryHand openPalm ?b s1))"
    by (rule onResults_one_hand) (simp_all add: frameAt_def openPalm_length)
  have v1: "sh_visible s1" by (simp add: s1_def otherHand_def Let_def)
  have "sh_visible (fst (primaryHand openPalm ?b s1))" using v1 by (simp add: primaryHand_slots)
  then have "map_sum id (\<lambda>r. sh_visible (fst r)) (runFrames [?a, ?b] ?s) = Inr True"
    by (simp add: a b case_prod_beta)
  moreover have "map (\<lambda>fr. map_option length (multiHandLandmarks fr)) [?a, ?b] = [Some 2, Some 1]"
    by (simp add: frameAt_def)
  ultimately show ?thesis unfolding secondHandLeaves_def by simp
qed

section \<open>Properties of the boxing tracker\<close>

subsection \<open>One call of the punch detector\<close>

lemma detectPunch_cooldown:
  assumes "now - punchCooldown s l < PUNCH_COOLDOWN_MS"
  shows "detectPunch l now s = (s, [])"
  using assms by (simp add: detectPunch_def)

lemma detectPunch_guarding:
  assumes "isGuarding s"
  shows "detectPunch l now s = (s, [])"
  using assms by (simp add: detectPunch_def)

text \<open>What a call can do: nothing to report, or exactly one punch of its own hand.\<close>

lemma punchStart_quiet:
  "snd (punchStart l now s) = []"
  "punchCooldown (fst (punchStart l now s)) = punchCooldown s"
  "isGuarding (fst (punchStart l now s)) = isGuarding s"
  "hands (fst (punchStart l now s)) = hands s"
  "history (fst (punchStart l now s)) = history s"
  "l' \<noteq> l \<Longrightarrow> punchSt (fst (punchStart l now s)) l' = punchSt s l'"
  by (simp_all add: punchStart_def Let_def)

lemma firePunch_effect:
  "length (filter (isPunchOf l) (snd (firePunch l now s))) = 1"
  "length (filter isOnPunch (snd (firePunch l now s))) = 1"
  "filter isGuardChange (snd (firePunch l now s)) = []"
  "punchCooldown (fst (firePunch l now s)) = (punchCooldown s)(l := now)"
  "\<not> reaching (punchSt (fst (firePunch l now s)) l)"
  "isGuarding (fst (firePunch l now s)) = isGuarding s"
  "hands (fst (firePunch l now s)) = hands s"
  "history (fst (firePunch l now s)) = history s"
  "l' \<noteq> l \<Longrightarrow> punchSt (fst (firePunch l now s)) l' = punchSt s l'"
  "l' \<noteq> l \<Longrightarrow> filter (isPunchOf l') (snd (firePunch l now s)) = []"
  by (simp_all add: firePunch_def Let_def isPunchOf_def isOnPunch_def isGuardChange_def)

lemma punchTrack_frame:
  "isGuarding (fst (punchTrack l now s)) = isGuarding s"
  "hands (fst (punchTrack l now s)) = hands s"
  "history (fst (punchTrack l now s)) = history s"
  "l' \<noteq> l \<Longrightarrow> punchSt (fst (punchTrack l now s)) l' = punchSt s l'"
  "l' \<noteq> l \<Longrightarrow> punchCooldown (fst (punchTrack l now s)) l' = punchCooldown s l'"
  "l' \<noteq> l \<Longrightarrow> filter (isPunchOf l') (snd (punchTrack l now s)) = []"
  "filter isGuardChange (snd (punchTrack l now s)) = []"
  by (simp_all add: punchTrack_def firePunch_effect isGuardChange_def)

lemma punchTrack_events:
  "(snd (punchTrack l now s) = [] \<and> punchCooldown (fst (punchTrack l now s)) = punchCooldown s)
   \<or> (length (filter (isPunchOf l) (snd (punchTrack l now s))) = 1
      \<and> punchCooldown (fst (punchTrack l now s)) l = now
      \<and> \<not> reaching (punchSt (fst (punchTrack l now s)) l))"
  by (simp add: punchTrack_def firePunch_effect)

lemma detectPunch_frame:
  "isGuarding (fst (detectPunch l now s)) = isGuarding s"
  "hands (fst (detectPunch l now s)) = hands s"
  "history (fst (detectPunch l now s)) = history s"
  "l' \<noteq> l \<Longrightarrow> punchSt (fst (detectPunch l now s)) l' = punchSt s l'"
  "l' \<noteq> l \<Longrightarrow> punchCooldown (fst (detectPunch l now s)) l' = punchCooldown s l'"
  "l' \<noteq> l \<Longrightarrow> filter (isPunchOf l') (snd (detectPunch l now s)) = []"
  "filter isGuardChange (snd (detectPunch l now s)) = []"
  by (simp_all add: detectPunch_def punchTrack_frame punchStart_quiet)

lemma detectPunch_events:
  "(filter (isPunchOf l) (snd (detectPunch l now s)) = []
      \<and> punchCooldown (fst (detectPunch l now s)) = punchCooldown s)
   \<or> (length (filter (isPunchOf l) (snd (detectPunch l now s))) = 1
      \<and> punchCooldown (fst (detectPunch l now s)) l = now
      \<and> \<not> reaching (punchSt (fst (detectPunch l now s)) l))"
  using punchTrack_events[of l now s]
  by (auto simp: detectPunch_def punchStart_quiet)

subsection \<open>One detected hand\<close>

text \<open>The tracker with the position and the history of a detected hand stored.\<close>

lemma processHand_as_detectPunch:
  "\<exists>s1. processHand now d s = detectPunch (handLabel d) now s1
      \<and> punchCooldown s1 = punchCooldown s \<and> punchSt s1 = punchSt s
      \<and> isGuarding s1 = isGuarding s \<and> lastPunch s1 = lastPunch s"
  unfolding processHand_def Let_def
  by (intro exI conjI) (rule refl, simp_all)

lemma processHand_blocked:
  assumes "now - punchCooldown s l < PUNCH_COOLDOWN_MS \<or> isGuarding s"
  shows "filter (isPunchOf l) (snd (processHand now d s)) = []
       \<and> punchSt (fst (processHand now d s)) l = punchSt s l
       \<and> punchCooldown (fst (processHand now d s)) l = punchCooldown s l
       \<and> isGuarding (fst (processHand now d s)) = isGuarding s"
proof -
  from processHand_as_detectPunch[of now d s] obtain s1 where
    p: "processHand now d s = detectPunch (handLabel d) now s1"
    and k: "punchCooldown s1 = punchCooldown s" "punchSt s1 = punchSt s"
           "isGuarding s1 = isGuarding s"
    by blast
  show ?thesis
  proof (cases "handLabel d = l")
    case True
    have "detectPunch l now s1 = (s1, [])"
      using assms k by (auto intro: detectPunch_cooldown detectPunch_guarding)
    then show ?thesis using p k True by simp
  next
    case False
    then have "l \<noteq> handLabel d" by simp
    then show ?thesis using p k by (simp add: detectPunch_frame)
  qed
qed

lemma processHand_events:
  "(filter (isPunchOf l) (snd (processHand now d s)) = []
      \<and> punchCooldown (fst (processHand now d s)) l = punchCooldown s l)
   \<or> (length (filter (isPunchOf l) (snd (processHand now d s))) = 1
      \<and> punchCooldown (fst (processHand now d s)) l = now
      \<and> \<not> reaching (punchSt (fst (processHand now d s)) l))"
proof -
  from processHand_as_detectPunch[of now d s] obtain s1 where
    p: "processHand now d s = detectPunch (handLabel d) now s1"
    and k: "punchCooldown s1 = punchCooldown s" "punchSt s1 = punchSt s"
    by blast
  show ?thesis
  proof (cases "handLabel d = l")
    case True
    then show ?thesis using detectPunch_events[of l now s1] p k by auto
  next
    case False
    then have "l \<noteq> handLabel d" by simp
    then show ?thesis using p k by (simp add: detectPunch_frame)
  qed
qed

lemma processHand_guard:
  "isGuarding (fst (processHand now d s)) = isGuarding s"
  "filter isGuardChange (snd (processHand now d s)) = []"
  using processHand_as_detectPunch[of now d s] by (auto simp: detectPunch_frame)

subsection \<open>The loop over the detected hands\<close>

lemma cooldown_positive: "0 < PUNCH_COOLDOWN_MS"
  by (simp add: PUNCH_COOLDOWN_MS_def)

lemma processHands_blocked:
  assumes "list_all (\<lambda>d. 21 \<le> length (landmarks d)) ds"
      and "now - punchCooldown s l < PUNCH_COOLDOWN_MS \<or> isGuarding s"
  shows "\<exists>s' evs. processHands now ds s = Inr (s', evs)
           \<and> filter (isPunchOf l) evs = []
           \<and> punchSt s' l = punchSt s l \<and> punchCooldown s' l = punchCooldown s l
           \<and> isGuarding s' = isGuarding s"
  using assms
proof (induction ds arbitrary: s)
  case Nil
  then show ?case by simp
next
  case (Cons d ds)
  from Cons.prems(1) have d: "\<not> length (landmarks d) < 21"
    and ds: "list_all (\<lambda>d. 21 \<le> length (landmarks d)) ds" by simp_all
  let ?s1 = "fst (processHand now d s)"
  note b = processHand_blocked[OF Cons.prems(2), of d]
  from b Cons.prems(2) have blocked: "now - punchCooldown ?s1 l < PUNCH_COOLDOWN_MS \<or> isGuarding ?s1"
    by auto
  from Cons.IH[OF ds blocked] obtain s' evs where
    r: "processHands now ds ?s1 = Inr (s', evs)" "filter (isPunchOf l) evs = []"
       "punchSt s' l = punchSt ?s1 l" "punchCooldown s' l = punchCooldown ?s1 l"
       "isGuarding s' = isGuarding ?s1"
    by blast
  have "processHands now (d # ds) s = Inr (s', snd (processHand now d s) @ evs)"
    using d r(1) by (simp add: Let_def)
  then show ?case using r b by simp
qed

lemma processHands_events:
  assumes "list_all (\<lambda>d. 21 \<le> length (landmarks d)) ds"
  shows "\<exists>s' evs. processHands now ds s = Inr (s', evs)
           \<and> ((filter (isPunchOf l) evs = [] \<and> punchCooldown s' l = punchCooldown s l)
              \<or> (length (filter (isPunchOf l) evs) = 1 \<and> punchCooldown s' l = now
                 \<and> \<not> reaching (punchSt s' l)))
           \<and> isGuarding s' = isGuarding s \<and> filter isGuardChange evs = []"
  using assms
proof (induction ds arbitrary: s)
  case Nil
  then show ?case by simp
next
  case (Cons d ds)
  from Cons.prems have d: "\<not> length (landmarks d) < 21"
    and ds: "list_all (\<lambda>d. 21 \<le> length (landmarks d)) ds" by simp_all
  let ?s1 = "fst (processHand now d s)" and ?e1 = "snd (processHand now d s)"
  note g = processHand_guard[of now d s]
  consider (quiet) "filter (isPunchOf l) ?e1 = []" "punchCooldown ?s1 l = punchCooldown s l"
    | (fired) "length (filter (isPunchOf l) ?e1) = 1" "punchCooldown ?s1 l = now"
              "\<not> reaching (punchSt ?s1 l)"
    using processHand_events[of l now d s] by blast
  then show ?case
  proof cases
    case quiet
    from Cons.IH[OF ds, of ?s1] obtain s' evs where
      r: "processHands now ds ?s1 = Inr (s', evs)"
         "(filter (isPunchOf l) evs = [] \<and> punchCooldown s' l = punchCooldown ?s1 l)
          \<or> (length (filter (isPunchOf l) evs) = 1 \<and> punchCooldown s' l = now
             \<and> \<not> reaching (punchSt s' l))"
         "isGuarding s' = isGuarding ?s1" "filter isGuardChange evs = []"
      by blast
    have "processHands now (d # ds) s = Inr (s', ?e1 @ evs)"
      using d r(1) by (simp add: Let_def)
    then show ?thesis using r(2,3,4) quiet g by auto
  next
    case fired
    have blocked: "now - punchCooldown ?s1 l < PUNCH_COOLDOWN_MS \<or> isGuarding ?s1"
      using fired(2) cooldown_positive by simp
    from processHands_blocked[OF ds blocked] obtain s' evs where
      r: "processHands now ds ?s1 = Inr (s', evs)" "filter (isPunchOf l) evs = []"
         "punchSt s' l = punchSt ?s1 l" "punchCooldown s' l = punchCooldown ?s1 l"
         "isGuarding s' = isGuarding ?s1"
      by blast
    from Cons.IH[OF ds, of ?s1] r(1) have gc: "filter isGuardChange evs = []" by auto
    have "processHands now (d # ds) s = Inr (s', ?e1 @ evs)"
      using d r(1) by (simp add: Let_def)
    then show ?thesis using r fired g gc by simp
  qed
qed

subsection \<open>Guard and dodge\<close>

lemma updateGuard_effect:
  "isGuarding (fst (updateGuard now s)) = guardPredicate s"
  "snd (updateGuard now s)
     = (if guardPredicate s = isGuarding s then [] else [OnGuardChange (guardPredicate s)])"
  "hands (fst (updateGuard now s)) = hands s"
  "punchSt (fst (updateGuard now s)) = punchSt s"
  "punchCooldown (fst (updateGuard now s)) = punchCooldown s"
  by (auto simp: updateGuard_def guardPredicate_def Let_def)

lemma updateDodge_effect:
  "isGuarding (fst (updateDodge now s)) = isGuarding s"
  "hands (fst (updateDodge now s)) = hands s"
  "punchSt (fst (updateDodge now s)) = punchSt s"
  "punchCooldown (fst (updateDodge now s)) = punchCooldown s"
  "filter isGuardChange (snd (updateDodge now s)) = []"
  "filter (isPunchOf l) (snd (updateDodge now s)) = []"
  "filter isOnPunch (snd (updateDodge now s)) = []"
  by (simp_all add: updateDodge_def Let_def isGuardChange_def isPunchOf_def isOnPunch_def
        split: option.splits)

lemma guardAndDodge_effect:
  "isGuarding (fst (guardAndDodge now s)) = guardPredicate s"
  "guardPredicate (fst (guardAndDodge now s)) = guardPredicate s"
  "punchSt (fst (guardAndDodge now s)) = punchSt s"
  "punchCooldown (fst (guardAndDodge now s)) = punchCooldown s"
  "filter isGuardChange (snd (guardAndDodge now s))
     = (if guardPredicate s = isGuarding s then [] else [OnGuardChange (guardPredicate s)])"
  "filter (isPunchOf l) (snd (guardAndDodge now s)) = []"
  "filter isOnPunch (snd (guardAndDodge now s)) = []"
  by (simp_all add: guardAndDodge_def Let_def updateGuard_effect updateDodge_effect
        guardPredicate_def isGuardChange_def isPunchOf_def isOnPunch_def)

lemma clearVisible_effect:
  "isGuarding (clearVisible s) = isGuarding s"
  "punchSt (clearVisible s) = punchSt s"
  "punchCooldown (clearVisible s) = punchCooldown s"
  by (simp_all add: clearVisible_def)

subsection \<open>One frame and runs of frames\<close>

lemma isOnPunch_sides:
  assumes "filter (isPunchOf SideLeft) evs = []" and "filter (isPunchOf SideRight) evs = []"
  shows "filter isOnPunch evs = []"
proof -
  have "\<not> isOnPunch e" if "e \<in> set evs" for e
  proof -
    from that assms have "\<not> isPunchOf SideLeft e" "\<not> isPunchOf SideRight e"
      by (auto simp: filter_empty_conv)
    then show ?thesis
      by (cases e) (auto simp: isOnPunch_def isPunchOf_def intro: side.exhaust)
  qed
  then show ?thesis by (simp add: filter_empty_conv)
qed

lemma update_blocked:
  assumes "wellFormed fr"
      and "b_now fr - punchCooldown s l < PUNCH_COOLDOWN_MS \<or> isGuarding s"
  shows "\<exists>s' evs. update fr s = Inr (s', evs)
           \<and> filter (isPunchOf l) evs = []
           \<and> punchSt s' l = punchSt s l \<and> punchCooldown s' l = punchCooldown s l"
proof -
  have ok: "list_all (\<lambda>d. 21 \<le> length (landmarks d)) (detections fr)"
    using assms(1) by (simp add: wellFormed_def)
  have b: "b_now fr - punchCooldown (clearVisible s) l < PUNCH_COOLDOWN_MS
           \<or> isGuarding (clearVisible s)"
    using assms(2) by (simp add: clearVisible_effect)
  from processHands_blocked[OF ok b] obtain s1 evs where
    r: "processHands (b_now fr) (detections fr) (clearVisible s) = Inr (s1, evs)"
       "filter (isPunchOf l) evs = []" "punchSt s1 l = punchSt (clearVisible s) l"
       "punchCooldown s1 l = punchCooldown (clearVisible s) l"
    by blast
  have "update fr s = Inr (fst (guardAndDodge (b_now fr) s1), evs @ snd (guardAndDodge (b_now fr) s1))"
    by (simp add: update_def Let_def r(1))
  then show ?thesis using r(2,3,4) by (simp add: guardAndDodge_effect clearVisible_effect)
qed

lemma update_events:
  assumes "wellFormed fr"
  shows "\<exists>s' evs. update fr s = Inr (s', evs)
           \<and> ((filter (isPunchOf l) evs = [] \<and> punchCooldown s' l = punchCooldown s l)
              \<or> (length (filter (isPunchOf l) evs) = 1 \<and> punchCooldown s' l = b_now fr
                 \<and> \<not> reaching (punchSt s' l)))
           \<and> isGuarding s' = guardPredicate s'
           \<and> filter isGuardChange evs
               = (if guardPredicate s' = isGuarding s then [] else [OnGuardChange (guardPredicate s')])"
proof -
  have ok: "list_all (\<lambda>d. 21 \<le> length (landmarks d)) (detections fr)"
    using assms(1) by (simp add: wellFormed_def)
  from processHands_events[OF ok, of "b_now fr" "clearVisible s" l] obtain s1 evs where
    r: "processHands (b_now fr) (detections fr) (clearVisible s) = Inr (s1, evs)"
       "(filter (isPunchOf l) evs = [] \<and> punchCooldown s1 l = punchCooldown (clearVisible s) l)
        \<or> (length (filter (isPunchOf l) evs) = 1 \<and> punchCooldown s1 l = b_now fr
           \<and> \<not> reaching (punchSt s1 l))"
       "isGuarding s1 = isGuarding (clearVisible s)" "filter isGuardChange evs = []"
    by blast
  have "update fr s = Inr (fst (guardAndDodge (b_now fr) s1), evs @ snd (guardAndDodge (b_now fr) s1))"
    by (simp add: update_def Let_def r(1))
  then show ?thesis using r(2,3,4) by (auto simp: guardAndDodge_effect clearVisible_effect)
qed

lemma runUpdates_blocked:
  assumes "list_all wellFormed frs"
      and "list_all (\<lambda>f. b_now f - punchCooldown s l < PUNCH_COOLDOWN_MS) frs"
  shows "\<exists>s' evss. runUpdates frs s = Inr (s', evss)
           \<and> map (\<lambda>evs. length (filter (isPunchOf l) evs)) evss = replicate (length frs) 0
           \<and> punchSt s' l = punchSt s l \<and> punchCooldown s' l = punchCooldown s l"
  using assms
proof (induction frs arbitrary: s)
  case Nil
  then show ?case by simp
next
  case (Cons fr frs)
  from Cons.prems have w: "wellFormed fr" and ws: "list_all wellFormed frs"
    and c: "b_now fr - punchCooldown s l < PUNCH_COOLDOWN_MS"
    and cs: "list_all (\<lambda>f. b_now f - punchCooldown s l < PUNCH_COOLDOWN_MS) frs"
    by simp_all
  from update_blocked[OF w, of s l] c obtain s1 evs where
    u: "update fr s = Inr (s1, evs)" "filter (isPunchOf l) evs = []"
       "punchSt s1 l = punchSt s l" "punchCooldown s1 l = punchCooldown s l"
    by blast
  from cs u(4) have cs1: "list_all (\<lambda>f. b_now f - punchCooldown s1 l < PUNCH_COOLDOWN_MS) frs"
    by simp
  from Cons.IH[OF ws cs1] obtain s2 evss where
    r: "runUpdates frs s1 = Inr (s2, evss)"
       "map (\<lambda>evs. length (filter (isPunchOf l) evs)) evss = replicate (length frs) 0"
       "punchSt s2 l = punchSt s1 l" "punchCooldown s2 l = punchCooldown s1 l"
    by blast
  have "runUpdates (fr # frs) s = Inr (s2, evs # evss)" using u(1) r(1) by simp
  then show ?case using u r by simp
qed

text \<open>
  C3. When a punch of a hand fires on a frame, the frame fires exactly one punch of
  that hand, and on every following frame closer in time than the cooldown (250 ms) no
  punch of that hand fires and the hand's punch state machine stays as the punch left
  it (idle), whatever the hand does on those frames: the whole window holds exactly
  one \<open>onPunch\<close> of the hand.
\<close>

theorem punch_cooldown_one_event:
  assumes "wellFormed fr" and "list_all wellFormed frs"
      and "punchFiresOn l fr s"
      and "list_all (\<lambda>f. b_now f - b_now fr < PUNCH_COOLDOWN_MS) frs"
  shows "bxCounts (isPunchOf l) (runUpdates (fr # frs) s) = Some (1 # replicate (length frs) 0)
       \<and> (\<exists>s1 evs s2 evss. update fr s = Inr (s1, evs) \<and> runUpdates frs s1 = Inr (s2, evss)
             \<and> \<not> reaching (punchSt s1 l) \<and> punchSt s2 l = punchSt s1 l
             \<and> punchCooldown s2 l = b_now fr)"
proof -
  from update_events[OF assms(1), of s l] obtain s1 evs where
    u: "update fr s = Inr (s1, evs)"
    and c: "(filter (isPunchOf l) evs = [] \<and> punchCooldown s1 l = punchCooldown s l)
            \<or> (length (filter (isPunchOf l) evs) = 1 \<and> punchCooldown s1 l = b_now fr
               \<and> \<not> reaching (punchSt s1 l))"
    by blast
  from assms(3) u have "filter (isPunchOf l) evs \<noteq> []" by (simp add: punchFiresOn_def)
  with c have one: "length (filter (isPunchOf l) evs) = 1" and cd: "punchCooldown s1 l = b_now fr"
    and idle: "\<not> reaching (punchSt s1 l)" by auto
  from assms(4) cd have w: "list_all (\<lambda>f. b_now f - punchCooldown s1 l < PUNCH_COOLDOWN_MS) frs"
    by simp
  from runUpdates_blocked[OF assms(2) w] obtain s2 evss where
    r: "runUpdates frs s1 = Inr (s2, evss)"
       "map (\<lambda>evs. length (filter (isPunchOf l) evs)) evss = replicate (length frs) 0"
       "punchSt s2 l = punchSt s1 l" "punchCooldown s2 l = punchCooldown s1 l"
    by blast
  have "bxCounts (isPunchOf l) (runUpdates (fr # frs) s) = Some (1 # replicate (length frs) 0)"
    using u r(1,2) one by (simp add: bxCounts_def)
  moreover have "\<exists>s1 evs s2 evss. update fr s = Inr (s1, evs) \<and> runUpdates frs s1 = Inr (s2, evss)
             \<and> \<not> reaching (punchSt s1 l) \<and> punchSt s2 l = punchSt s1 l
             \<and> punchCooldown s2 l = b_now fr"
    using u r idle cd by auto
  ultimately show ?thesis by simp
qed

text \<open>
  C8. While \<open>isGuarding\<close> is true \<open>_detectPunch\<close> returns at once for either hand;
  a frame processed in a guarding state fires no \<open>onPunch\<close> and leaves both hands'
  punch state machines and cooldowns as they were.
\<close>

theorem guard_suppresses_punches:
  assumes "isGuarding s" and "wellFormed fr"
  shows "detectPunch l now s = (s, [])
       \<and> (\<exists>s' evs. update fr s = Inr (s', evs) \<and> filter isOnPunch evs = []
             \<and> punchSt s' = punchSt s \<and> punchCooldown s' = punchCooldown s)"
proof -
  have g: "\<And>l. b_now fr - punchCooldown s l < PUNCH_COOLDOWN_MS \<or> isGuarding s"
    using assms(1) by simp
  from update_blocked[OF assms(2) g, of SideLeft] obtain s' evs where
    u: "update fr s = Inr (s', evs)" and
    l: "filter (isPunchOf SideLeft) evs = []" "punchSt s' SideLeft = punchSt s SideLeft"
       "punchCooldown s' SideLeft = punchCooldown s SideLeft"
    by blast
  from update_blocked[OF assms(2) g, of SideRight] u have
    r: "filter (isPunchOf SideRight) evs = []" "punchSt s' SideRight = punchSt s SideRight"
       "punchCooldown s' SideRight = punchCooldown s SideRight"
    by auto
  have "punchSt s' x = punchSt s x" "punchCooldown s' x = punchCooldown s x" for x
    using l r by (cases x; simp)+
  then have "punchSt s' = punchSt s" "punchCooldown s' = punchCooldown s" by auto
  moreover have "filter isOnPunch evs = []" using l(1) r(1) by (rule isOnPunch_sides)
  ultimately show ?thesis using u detectPunch_guarding[OF assms(1)] by simp
qed

text \<open>
  C9. On every frame \<open>isGuarding\<close> becomes the guard predicate of that frame (both
  hands visible, high, near the centre and close together), and \<open>onGuardChange\<close>
  fires exactly when that value differs from the stored one, once, with the new value.
  So on the second of two consecutive frames it fires exactly when the predicate's value
  differs between the two frames.
\<close>

theorem guard_change_only_on_transition:
  assumes "wellFormed fr1" and "wellFormed fr2"
  shows "\<exists>s1 evs1 s2 evs2. update fr1 s = Inr (s1, evs1) \<and> update fr2 s1 = Inr (s2, evs2)
           \<and> isGuarding s1 = guardPredicate s1 \<and> isGuarding s2 = guardPredicate s2
           \<and> filter isGuardChange evs1
               = (if guardPredicate s1 = isGuarding s then [] else [OnGuardChange (guardPredicate s1)])
           \<and> filter isGuardChange evs2
               = (if guardPredicate s2 = guardPredicate s1 then []
                  else [OnGuardChange (guardPredicate s2)])"
proof -
  from update_events[OF assms(1), of s SideLeft] obtain s1 evs1 where
    u1: "update fr1 s = Inr (s1, evs1)" "isGuarding s1 = guardPredicate s1"
        "filter isGuardChange evs1
           = (if guardPredicate s1 = isGuarding s then [] else [OnGuardChange (guardPredicate s1)])"
    by blast
  from update_events[OF assms(2), of s1 SideLeft] obtain s2 evs2 where
    u2: "update fr2 s1 = Inr (s2, evs2)" "isGuarding s2 = guardPredicate s2"
        "filter isGuardChange evs2
           = (if guardPredicate s2 = isGuarding s1 then [] else [OnGuardChange (guardPredicate s2)])"
    by blast
  show ?thesis using u1 u2 by auto
qed

subsection \<open>Concrete runs\<close>

lemma handAt_nth:
  "i < 21 \<Longrightarrow> handAt x y z ! i = (if i = 0 then \<lparr> lm_x = x, lm_y = y, lm_z = z \<rparr> else lmAt x y)"
  by (simp add: handAt_def nth_list_update)

lemma handAt_length: "length (handAt x y z) = 21"
  by (simp add: handAt_def)

lemma handAt_fist: "isFistClosed (handAt x y z) = False"
  by (simp add: isFistClosed_def handAt_nth lmAt_def)

lemma wellFormed_seen: "wellFormed (seen z now)" "wellFormed (guardPose now)"
  by (simp_all add: wellFormed_def seen_def guardPose_def handAt_length)

lemma b_now_seen: "b_now (seen z now) = now"
  by (simp add: seen_def)

lemmas boxing_eval =
  seen_def guardPose_def update_def processHand_def handLabel_def
  handAt_nth handAt_length handAt_fist clearVisible_def newBoxingTracker_def Let_def
  pushHistory_def MAX_HISTORY_def detectPunch_def punchStart_def punchTrack_def firePunch_def
  PUNCH_COOLDOWN_MS_def zVelocity_def yVelocity_def xVelocity_def currentReach_def
  trackedState_def travelDistance_def yTravel_def xTravel_def elapsed_def isExtended_def
  punchTimedOut_def armRetreating_def punchComplete_def PUNCH_VELOCITY_THRESHOLD_def
  PUNCH_REACH_TIME_def MIN_PUNCH_TRAVEL_def punchPower_def punchSpeedAbove_def
  guardAndDodge_def updateGuard_def updateDodge_def DODGE_COOLDOWN_MS_def
  DODGE_X_THRESHOLD_def shouldGuard_def GUARD_Y_THRESHOLD_def GUARD_X_RANGE_def lmAt_def

lemma reachStarts_run:
  "map_sum id snd (runUpdates reachStarts newBoxingTracker) = Inr [[], [], []]"
  "reaching (punchSt afterStart SideLeft)"
  "startTime (punchSt afterStart SideLeft) = 1033"
  "startZ (punchSt afterStart SideLeft) = 1 / 100"
  "peakZ (punchSt afterStart SideLeft) = 1 / 100"
  "\<not> isGuarding afterStart"
  by (simp_all add: afterStart_def reachStarts_def boxing_eval)

subsection \<open>The reach window\<close>

text \<open>
  The branch of \<open>_detectPunch\<close> for a reach whose window of 400 ms has elapsed without
  extension resets the state and fires nothing. With the constructor's values it is
  never taken: once more than 100 ms have passed since the start of a reach the hand
  counts as extended, so it does whenever the window has elapsed. A reach that times
  out therefore fires a punch, and a reach never ends without one.
\<close>

lemma timeout_implies_extended:
  assumes "punchTimedOut l now s"
  shows "isExtended l now s"
  using assms by (simp add: punchTimedOut_def isExtended_def PUNCH_REACH_TIME_def)

lemma punchTrack_without_discard:
  "punchTrack l now s =
     (if punchComplete l now s \<and> isExtended l now s then firePunch l now s
      else (s\<lparr> punchSt := (punchSt s)(l := trackedState l s) \<rparr>, []))"
  using timeout_implies_extended[of l now s] by (auto simp: punchTrack_def)

lemma reach_timeout_fires:
  assumes "reaching (punchSt s l)" and "punchTimedOut l now s"
      and "\<not> now - punchCooldown s l < PUNCH_COOLDOWN_MS" and "\<not> isGuarding s"
      and "3 \<le> length (history s l)"
  shows "detectPunch l now s = firePunch l now s"
  using assms timeout_implies_extended[OF assms(2)]
  by (simp add: detectPunch_def punchTrack_def punchComplete_def)

lemma reach_ends_with_punch:
  assumes "reaching (punchSt s l)"
      and "\<not> reaching (punchSt (fst (detectPunch l now s)) l)"
  shows "detectPunch l now s = firePunch l now s"
  using assms
  by (auto simp: detectPunch_def punchTrack_without_discard trackedState_def Let_def
           split: if_splits)

text \<open>
  A reach that stalls: it starts on the frame at 1033 ms and the hand then stays where
  it is, so the travel is 0. On the next frame, 401 ms later, both the 100 ms and the
  window of 400 ms have passed, and the tracker fires \<open>onPunch\<close> for a jab of power 1
  and travel 0.
\<close>

lemma stalled_reach_fires:
  "map_sum id snd (runUpdates stalledReach newBoxingTracker)
     = Inr [[], [], [], [OnPunch SideLeft Jab 1 (1 / 2) (7 / 10) 0]]"
  by (simp add: stalledReach_def reachStarts_def boxing_eval)

subsection \<open>Instances\<close>

lemma stalled_frame_fires: "punchFiresOn SideLeft (seen (- (1 / 100)) 1434) afterStart"
  by (simp add: punchFiresOn_def afterStart_def reachStarts_def boxing_eval isPunchOf_def)

text \<open>
  After the punch at 1434 ms the hand moves quickly towards the camera on the frames at
  1450, 1466 and 1650 ms; nothing more fires within the 250 ms.
\<close>

theorem punch_cooldown_one_event_witness:
  "wellFormed (seen (- (1 / 100)) 1434)
   \<and> punchFiresOn SideLeft (seen (- (1 / 100)) 1434) afterStart
   \<and> bxCounts (isPunchOf SideLeft)
       (runUpdates [seen (- (1 / 100)) 1434, seen (- (3 / 100)) 1450, seen (- (5 / 100)) 1466,
                    seen (- (7 / 100)) 1650] afterStart) = Some [1, 0, 0, 0]"
proof -
  let ?fr = "seen (- (1 / 100)) 1434"
  let ?frs = "[seen (- (3 / 100)) 1450, seen (- (5 / 100)) 1466, seen (- (7 / 100)) 1650]"
  have w: "wellFormed ?fr" by (rule wellFormed_seen)
  have ws: "list_all wellFormed ?frs" by (simp add: wellFormed_seen)
  have win: "list_all (\<lambda>f. b_now f - b_now ?fr < PUNCH_COOLDOWN_MS) ?frs"
    by (simp add: b_now_seen PUNCH_COOLDOWN_MS_def)
  have "bxCounts (isPunchOf SideLeft) (runUpdates (?fr # ?frs) afterStart)
          = Some (1 # replicate (length ?frs) 0)"
    using punch_cooldown_one_event[OF w ws stalled_frame_fires win] by (rule conjunct1)
  moreover have "1 # replicate (length ?frs) 0 = [1, 0, 0, (0::nat)]" by (simp add: numeral_3_eq_3)
  ultimately show ?thesis using w stalled_frame_fires by (simp only: simp_thms)
qed

text \<open>The same frame fires nothing when the tracker is guarding.\<close>

theorem guard_suppresses_punches_witness:
  "isGuarding (afterStart\<lparr> isGuarding := True \<rparr>) \<and> wellFormed (seen (- (1 / 100)) 1434)
   \<and> punchFiresOn SideLeft (seen (- (1 / 100)) 1434) afterStart
   \<and> detectPunch SideLeft 1434 (afterStart\<lparr> isGuarding := True \<rparr>)
       = (afterStart\<lparr> isGuarding := True \<rparr>, [])
   \<and> (\<exists>s' evs. update (seen (- (1 / 100)) 1434) (afterStart\<lparr> isGuarding := True \<rparr>) = Inr (s', evs)
         \<and> filter isOnPunch evs = []
         \<and> punchSt s' = punchSt (afterStart\<lparr> isGuarding := True \<rparr>)
         \<and> punchCooldown s' = punchCooldown (afterStart\<lparr> isGuarding := True \<rparr>))"
proof -
  have g: "isGuarding (afterStart\<lparr> isGuarding := True \<rparr>)" by simp
  have w: "wellFormed (seen (- (1 / 100)) 1434)" by (rule wellFormed_seen)
  from guard_suppresses_punches[OF g w, of SideLeft 1434] g w stalled_frame_fires
  show ?thesis by (simp only: simp_thms)
qed

text \<open>The guard pose held on two frames: one \<open>onGuardChange(true)\<close>, on the first.\<close>

lemma guardPose_run:
  "map_sum id snd (runUpdates [guardPose 1000, guardPose 1016] newBoxingTracker)
     = Inr [[OnGuardChange True], []]"
  by (simp add: boxing_eval)

theorem guard_change_only_on_transition_witness:
  "wellFormed (guardPose 1000) \<and> wellFormed (guardPose 1016)
   \<and> (\<exists>s1 evs1 s2 evs2. update (guardPose 1000) newBoxingTracker = Inr (s1, evs1)
         \<and> update (guardPose 1016) s1 = Inr (s2, evs2)
         \<and> isGuarding s1 = guardPredicate s1 \<and> isGuarding s2 = guardPredicate s2
         \<and> filter isGuardChange evs1
             = (if guardPredicate s1 = isGuarding newBoxingTracker then []
                else [OnGuardChange (guardPredicate s1)])
         \<and> filter isGuardChange evs2
             = (if guardPredicate s2 = guardPredicate s1 then []
                else [OnGuardChange (guardPredicate s2)]))
   \<and> map_sum id snd (runUpdates [guardPose 1000, guardPose 1016] newBoxingTracker)
       = Inr [[OnGuardChange True], []]"
proof -
  have w: "wellFormed (guardPose 1000)" "wellFormed (guardPose 1016)"
    by (rule wellFormed_seen)+
  from guard_change_only_on_transition[OF w, of newBoxingTracker] w guardPose_run
  show ?thesis by (simp only: simp_thms)
qed


end
